theory Spec2Isabelle
  imports Main
begin

section \<open>AutoPostGPT: content generation and WordPress publishing\<close>

text \<open>
  A shallow embedding of \<^verbatim>\<open>generator.py\<close> (class ArticleGenerator) and
  \<^verbatim>\<open>publisher.py\<close> (the REST and XML-RPC publishers and \<^verbatim>\<open>create_publisher\<close>).
  External collaborators (the chat-completion endpoint, the WordPress server, Python's
  \<^verbatim>\<open>random\<close> module) are arguments of the functions: every answer they can give is
  an input of the model. Python exceptions are values of \<open>py_exception\<close>.
\<close>

subsection \<open>Exceptions\<close>

text \<open>
  Every constructor is a subclass of Python's \<^verbatim>\<open>Exception\<close>, so
  \<^verbatim>\<open>except Exception\<close> catches all of them;
  \<^verbatim>\<open>except requests.exceptions.RequestException\<close> catches only \<open>RequestException\<close>.
\<close>

datatype py_exception =
    RequestException
  | ImportError
  | KeyError
  | AttributeError
  | UnboundLocalError
  | OtherException

subsection \<open>generator.py: image acquisition plan of generate\_article\<close>

text \<open>
  \<^verbatim>\<open>search_count = image_count // 2; generate_count = image_count - search_count\<close>.
  Python's \<^verbatim>\<open>//\<close> is floor division, as \<open>div\<close> on \<open>int\<close> is.
\<close>

definition mixed_split :: "int \<Rightarrow> int \<times> int" where
  "mixed_split image_count =
     (let search_count = image_count div 2;
          generate_count = image_count - search_count
      in (search_count, generate_count))"

datatype image_request = SearchImages int | GenerateImages int

text \<open>
  The calls that generate\_article issues for images, in order, with the count each one is
  given: \<^verbatim>\<open>search_images(title, c, ...)\<close> or
  \<^verbatim>\<open>generate_image_prompts(title, c)\<close>.
\<close>

definition image_requests :: "bool \<Rightarrow> int \<Rightarrow> string \<Rightarrow> image_request list" where
  "image_requests fetch_real_images image_count image_mode =
     (if fetch_real_images \<and> image_count > 0 then
        (if image_mode = ''search'' then [SearchImages image_count]
         else if image_mode = ''generate'' then [GenerateImages image_count]
         else if image_mode = ''mixed'' then
           (case mixed_split image_count of (search_count, generate_count) \<Rightarrow>
              (if search_count > 0 then [SearchImages search_count] else []) @
              (if generate_count > 0 then [GenerateImages generate_count] else []))
         else [])
      else [])"

subsection \<open>generator.py: Python strings\<close>

text \<open>
  A Python \<^verbatim>\<open>str\<close> is a sequence of Unicode code points; titles contain CJK
  characters, so a string of the generator is a list of code points.
\<close>

type_synonym ustring = "nat list"

text \<open>The characters that \<^verbatim>\<open>str.strip()\<close> without argument removes (\<^verbatim>\<open>str.isspace\<close>).\<close>

definition py_isspace :: "nat \<Rightarrow> bool" where
  "py_isspace c =
     ((9 \<le> c \<and> c \<le> 13) \<or> (28 \<le> c \<and> c \<le> 32) \<or> c = 133 \<or> c = 160 \<or> c = 5760 \<or>
      (8192 \<le> c \<and> c \<le> 8202) \<or> c = 8232 \<or> c = 8233 \<or> c = 8239 \<or> c = 8287 \<or> c = 12288)"

definition py_strip :: "ustring \<Rightarrow> ustring" where
  "py_strip s = rev (dropWhile py_isspace (rev (dropWhile py_isspace s)))"

text \<open>\<^verbatim>\<open>s.lstrip(chars)\<close>: the maximal leading run of characters of \<open>chars\<close> is dropped.\<close>

definition py_lstrip :: "nat list \<Rightarrow> ustring \<Rightarrow> ustring" where
  "py_lstrip chars s = dropWhile (\<lambda>c. c \<in> set chars) s"

text \<open>\<^verbatim>\<open>s.split(sep)\<close> for a one-character separator; the empty string splits into \<^verbatim>\<open>['']\<close>.\<close>

fun py_split :: "nat \<Rightarrow> ustring \<Rightarrow> ustring list" where
  "py_split sep [] = [[]]"
| "py_split sep (c # cs) =
     (if c = sep then [] # py_split sep cs
      else (case py_split sep cs of
              [] \<Rightarrow> [[c]]
            | l # ls \<Rightarrow> (c # l) # ls))"

text \<open>\<^verbatim>\<open>w in t\<close> on strings: \<open>w\<close> occurs in \<open>t\<close> as a contiguous block.\<close>

fun py_startswith :: "'a list \<Rightarrow> 'a list \<Rightarrow> bool" where
  "py_startswith t [] = True"
| "py_startswith [] (p # ps) = False"
| "py_startswith (c # cs) (p # ps) = (c = p \<and> py_startswith cs ps)"

fun py_in :: "'a list \<Rightarrow> 'a list \<Rightarrow> bool" where
  "py_in w [] = (w = [])"
| "py_in w (c # cs) = (py_startswith (c # cs) w \<or> py_in w cs)"

text \<open>\<^verbatim>\<open>xs[:n]\<close>: a negative \<open>n\<close> counts from the end.\<close>

definition py_slice_to :: "'a list \<Rightarrow> int \<Rightarrow> 'a list" where
  "py_slice_to xs n =
     (if 0 \<le> n then take (nat n) xs else take (length xs - nat (- n)) xs)"

text \<open>\<^verbatim>\<open>str(n)\<close> for a non-negative integer: its decimal digits.\<close>

definition digit_char :: "nat \<Rightarrow> char" where
  "digit_char d = ''0123456789'' ! d"

fun py_str_nat :: "nat \<Rightarrow> string" where
  "py_str_nat n =
     (if n < 10 then [digit_char n] else py_str_nat (n div 10) @ [digit_char (n mod 10)])"

declare py_str_nat.simps [simp del]


subsection \<open>generator.py: forbidden words and generate\_titles\<close>

text \<open>
  \<^verbatim>\<open>str.lower\<close> is Python's Unicode lowering; it is the argument \<open>lower\<close> of the
  functions below, so every result holds for any lowering function.
  \<open>ascii_lower\<close> is the instance used on concrete inputs.
\<close>

definition ascii_lower :: "ustring \<Rightarrow> ustring" where
  "ascii_lower s = map (\<lambda>c. if 65 \<le> c \<and> c \<le> 90 then c + 32 else c) s"

text \<open>The loop of \_check\_forbidden\_words over the words, on the lowered text.\<close>

fun forbidden_loop :: "(ustring \<Rightarrow> ustring) \<Rightarrow> ustring list \<Rightarrow> ustring \<Rightarrow> bool" where
  "forbidden_loop lower [] text_lower = False"
| "forbidden_loop lower (word # ws) text_lower =
     (if py_in (lower word) text_lower then True else forbidden_loop lower ws text_lower)"

definition check_forbidden_words :: "(ustring \<Rightarrow> ustring) \<Rightarrow> ustring list \<Rightarrow> ustring \<Rightarrow> bool" where
  "check_forbidden_words lower forbidden_words text =
     (if forbidden_words = [] then False
      else forbidden_loop lower forbidden_words (lower text))"

text \<open>The characters of \<^verbatim>\<open>'0123456789.\<close>U+3001\<^verbatim>\<open> '\<close>: digits, full stop, ideographic comma, space.\<close>

definition numbering_chars :: "nat list" where
  "numbering_chars = [48, 49, 50, 51, 52, 53, 54, 55, 56, 57, 46, 12289, 32]"

text \<open>\<^verbatim>\<open>[line.strip() for line in content.split('\n') if line.strip()]\<close> on the stripped content.\<close>

definition parse_titles :: "ustring \<Rightarrow> ustring list" where
  "parse_titles content =
     filter (\<lambda>line. line \<noteq> []) (map py_strip (py_split 10 (py_strip content)))"

text \<open>
  The loop that fills \<^verbatim>\<open>cleaned_titles\<close>: each title loses its leading numbering
  characters and is appended when it is non-empty and has no forbidden word.
\<close>

fun clean_titles :: "(ustring \<Rightarrow> ustring) \<Rightarrow> ustring list \<Rightarrow> ustring list \<Rightarrow> ustring list" where
  "clean_titles lower fw [] = []"
| "clean_titles lower fw (title # titles) =
     (let title' = py_lstrip numbering_chars title in
      if title' \<noteq> [] \<and> \<not> check_forbidden_words lower fw title'
      then title' # clean_titles lower fw titles
      else clean_titles lower fw titles)"

text \<open>
  The chat-completion call: \<open>llm keyword n attempt\<close> is what
  \<^verbatim>\<open>response.choices[0].message.content\<close> gives on the call of that attempt, or
  the exception raised on the way.
\<close>

type_synonym llm = "ustring \<Rightarrow> int \<Rightarrow> nat \<Rightarrow> py_exception + ustring"

text \<open>
  \<^verbatim>\<open>for attempt in range(max_retries)\<close>: \<open>remaining\<close> counts the iterations left,
  \<open>cleaned\<close> is the variable \<^verbatim>\<open>cleaned_titles\<close> (\<open>None\<close> while it is unbound), which
  every iteration assigns anew. After the loop the variable is read: unbound, it raises.
\<close>

fun titles_loop ::
  "(ustring \<Rightarrow> ustring) \<Rightarrow> ustring list \<Rightarrow> llm \<Rightarrow> ustring \<Rightarrow> int \<Rightarrow> nat \<Rightarrow> nat \<Rightarrow>
   ustring list option \<Rightarrow> py_exception + ustring list" where
  "titles_loop lower fw llm keyword n 0 attempt cleaned =
     (case cleaned of None \<Rightarrow> Inl UnboundLocalError | Some ts \<Rightarrow> Inr ts)"
| "titles_loop lower fw llm keyword n (Suc remaining) attempt cleaned =
     (case llm keyword n attempt of
        Inl e \<Rightarrow> Inl e
      | Inr content \<Rightarrow>
          (let cleaned_titles = clean_titles lower fw (parse_titles content) in
           if int (length cleaned_titles) \<ge> n then Inr (py_slice_to cleaned_titles n)
           else titles_loop lower fw llm keyword n remaining (Suc attempt) (Some cleaned_titles)))"

text \<open>generate\_titles: \<^verbatim>\<open>except Exception\<close> turns every exception into the empty list.\<close>

definition generate_titles ::
  "(ustring \<Rightarrow> ustring) \<Rightarrow> ustring list \<Rightarrow> llm \<Rightarrow> ustring \<Rightarrow> int \<Rightarrow> int \<Rightarrow> ustring list" where
  "generate_titles lower forbidden_words llm keyword n max_retries =
     (case titles_loop lower forbidden_words llm keyword n (nat max_retries) 0 None of
        Inl e \<Rightarrow> []
      | Inr ts \<Rightarrow> ts)"

subsection \<open>Concrete chat-completion answers\<close>

text \<open>Two lines, \<^verbatim>\<open>a\<close> and \<^verbatim>\<open>b\<close>, on every attempt.\<close>

definition llm_two_lines :: llm where
  "llm_two_lines keyword n attempt = Inr [97, 10, 98]"

text \<open>The single line \<^verbatim>\<open>a\<close> on the first attempt, \<^verbatim>\<open>b\<close> on every later one.\<close>

definition llm_retry :: llm where
  "llm_retry keyword n attempt = (if attempt = 0 then Inr [97] else Inr [98])"

text \<open>
  Two lines on every attempt: \<^verbatim>\<open>2025\<close>, U+5E74 (the character for year),
  \<^verbatim>\<open>AI\<close>; and \<^verbatim>\<open>2. xBy\<close>.
\<close>

definition llm_year :: llm where
  "llm_year keyword n attempt =
     Inr [50, 48, 50, 53, 24180, 65, 73, 10, 50, 46, 32, 120, 66, 121]"

subsection \<open>generator.py: the placeholder fallback \_search\_picsum\<close>

text \<open>
  Python's \<^verbatim>\<open>random\<close> module is a stream \<open>rnd\<close> of raw draws: the i-th call of
  \<^verbatim>\<open>random.randint(1, 1000)\<close> in a run returns \<open>randint rnd i\<close>, a number from 1 to
  1000 (both included), and every such number can be returned.
\<close>

definition randint :: "(nat \<Rightarrow> nat) \<Rightarrow> nat \<Rightarrow> nat" where
  "randint rnd i = 1 + rnd i mod 1000"

text \<open>
  \<^verbatim>\<open>img_id = random.randint(1, 1000)\<close> followed by
  \<^verbatim>\<open>while img_id in used_ids: img_id = random.randint(1, 1000)\<close>.
  \<open>pos\<close> counts the draws made so far; the result is the identifier and the new count.
  The loop need not end: not returning is \<open>None\<close>.
\<close>

partial_function (option) draw_unused ::
  "(nat \<Rightarrow> nat) \<Rightarrow> nat set \<Rightarrow> nat \<Rightarrow> (nat \<times> nat) option" where
  "draw_unused rnd used_ids pos =
     (if randint rnd pos \<in> used_ids then draw_unused rnd used_ids (Suc pos)
      else Some (randint rnd pos, Suc pos))"

text \<open>\<^verbatim>\<open>f"https://picsum.photos/id/{img_id}/800/600"\<close>\<close>

definition picsum_url :: "nat \<Rightarrow> string" where
  "picsum_url img_id = ''https://picsum.photos/id/'' @ py_str_nat img_id @ ''/800/600''"

text \<open>\<^verbatim>\<open>for i in range(count)\<close>, with the set \<^verbatim>\<open>used_ids\<close> and the list \<^verbatim>\<open>images\<close>.\<close>

fun picsum_loop ::
  "(nat \<Rightarrow> nat) \<Rightarrow> nat \<Rightarrow> nat set \<Rightarrow> nat \<Rightarrow> string list \<Rightarrow> string list option" where
  "picsum_loop rnd 0 used_ids pos images = Some images"
| "picsum_loop rnd (Suc remaining) used_ids pos images =
     (case draw_unused rnd used_ids pos of
        None \<Rightarrow> None
      | Some (img_id, pos') \<Rightarrow>
          picsum_loop rnd remaining (insert img_id used_ids) pos' (images @ [picsum_url img_id]))"

text \<open>\<^verbatim>\<open>range(count)\<close> is empty for a count that is not positive.\<close>

definition search_picsum :: "(nat \<Rightarrow> nat) \<Rightarrow> string \<Rightarrow> int \<Rightarrow> string list option" where
  "search_picsum rnd query count = picsum_loop rnd (nat count) {} 0 []"

text \<open>
  A stream of draws in which every identifier keeps coming: from every position on, each
  number from 1 to 1000 is drawn again at some later call.
\<close>

definition fair :: "(nat \<Rightarrow> nat) \<Rightarrow> bool" where
  "fair rnd = (\<forall>pos v. 1 \<le> v \<and> v \<le> 1000 \<longrightarrow> (\<exists>j \<ge> pos. randint rnd j = v))"

text \<open>A concrete stream: its draws are 1, 1, 3, 4, 5, ... (the second draw repeats the first).\<close>

definition rnd_repeat :: "nat \<Rightarrow> nat" where
  "rnd_repeat i = (if i = 1 then 0 else i)"

subsection \<open>publisher.py: values, strings and replies\<close>

text \<open>ASCII literals of the source as code-point strings.\<close>

definition ascii :: "string \<Rightarrow> ustring" where
  "ascii s = map of_char s"

definition py_endswith :: "'a list \<Rightarrow> 'a list \<Rightarrow> bool" where
  "py_endswith s suffix = py_startswith (rev s) (rev suffix)"

text \<open>\<^verbatim>\<open>s.rstrip(chars)\<close>: the maximal trailing run of characters of \<open>chars\<close> is dropped.\<close>

definition py_rstrip :: "nat list \<Rightarrow> ustring \<Rightarrow> ustring" where
  "py_rstrip chars s = rev (dropWhile (\<lambda>c. c \<in> set chars) (rev s))"

text \<open>
  The values a configuration entry or an optional argument can hold, with Python's truth
  test and \<^verbatim>\<open>a or b\<close>.
\<close>

datatype py_value = PyNone | PyBool bool | PyInt int | PyStr ustring

fun truthy :: "py_value \<Rightarrow> bool" where
  "truthy PyNone = False"
| "truthy (PyBool b) = b"
| "truthy (PyInt i) = (i \<noteq> 0)"
| "truthy (PyStr s) = (s \<noteq> [])"

definition py_or :: "py_value \<Rightarrow> py_value \<Rightarrow> py_value" where
  "py_or a b = (if truthy a then a else b)"

text \<open>\<^verbatim>\<open>if x:\<close> on an optional integer identifier: \<^verbatim>\<open>None\<close> and 0 are false.\<close>

fun truthy_id :: "int option \<Rightarrow> bool" where
  "truthy_id None = False"
| "truthy_id (Some i) = (i \<noteq> 0)"

text \<open>\<^verbatim>\<open>random.choice(xs)\<close> on a non-empty list; \<open>pick\<close> is the random draw.\<close>

definition py_choice :: "nat \<Rightarrow> 'a list \<Rightarrow> 'a" where
  "py_choice pick xs = xs ! (pick mod length xs)"

text \<open>
  A call of \<^verbatim>\<open>requests.get\<close> or \<^verbatim>\<open>requests.post\<close> raises, or returns a response
  with a status code and a body. The body is the outcome of \<^verbatim>\<open>response.json()\<close> and of
  reading the fields the code reads: the exception raised on the way, or the value.
\<close>

datatype 'a http_reply = Raises py_exception | Reply int "py_exception + 'a"

text \<open>
  A category or a tag of the site: a JSON object with \<^verbatim>\<open>id\<close> and \<^verbatim>\<open>name\<close> over REST,
  a term object with \<^verbatim>\<open>.id\<close> and \<^verbatim>\<open>.name\<close> over XML-RPC, where \<open>term_id\<close> stands for
  \<^verbatim>\<open>int(term.id)\<close>.
\<close>

record wp_term =
  term_id :: int
  term_name :: ustring

text \<open>The JSON body of the REST create-post request; absent keys are \<open>None\<close>.\<close>

record post_data =
  pd_title :: ustring
  pd_content :: ustring
  pd_status :: py_value
  pd_excerpt :: "py_value option"
  pd_categories :: "int list option"
  pd_tags :: "int list option"

text \<open>The post object of the XML-RPC create-post call, with the two entries of \<^verbatim>\<open>terms_names\<close>.\<close>

record xmlrpc_post =
  xp_title :: ustring
  xp_content :: ustring
  xp_post_status :: py_value
  xp_excerpt :: "py_value option"
  xp_category :: "py_value list option"
  xp_post_tag :: "ustring list option"

text \<open>
  The remote site and the local installation, as the answers they give. The first argument
  of a REST answer is the API root the request is sent to (\<^verbatim>\<open>self.api_url\<close>, followed in
  the source by \<^verbatim>\<open>/users/me\<close>, \<^verbatim>\<open>/categories\<close>, \<^verbatim>\<open>/tags\<close> or \<^verbatim>\<open>/posts\<close>); the
  first argument of an XML-RPC answer is the URL the client was built with.
  The body of \<open>get_users_me\<close> is the entry \<^verbatim>\<open>name\<close> of the user object when it has one;
  the body of \<open>post_tags\<close> and of \<open>post_posts\<close> is the entry \<^verbatim>\<open>id\<close> of the created object.
\<close>

record remote =
  get_users_me :: "ustring \<Rightarrow> ustring option http_reply"
  get_categories :: "ustring \<Rightarrow> wp_term list http_reply"
  search_categories :: "ustring \<Rightarrow> py_value \<Rightarrow> wp_term list http_reply"
  post_tags :: "ustring \<Rightarrow> ustring \<Rightarrow> int http_reply"
  search_tags :: "ustring \<Rightarrow> ustring \<Rightarrow> wp_term list http_reply"
  post_posts :: "ustring \<Rightarrow> post_data \<Rightarrow> int http_reply"
  xmlrpc_installed :: bool
  client_init :: "ustring \<Rightarrow> py_exception option"
  call_get_terms :: "ustring \<Rightarrow> py_exception + wp_term list"
  call_new_post :: "ustring \<Rightarrow> xmlrpc_post \<Rightarrow> py_exception + ustring"

subsection \<open>publisher.py: the two publishers\<close>

text \<open>
  The attributes set by \<^verbatim>\<open>WordPressPublisherBase.__init__\<close>, and those each subclass adds.
  The REST publisher's \<^verbatim>\<open>headers\<close> (the Basic credentials) are sent with every request
  and are part of what the site's answers depend on; they are not modelled. User name and
  password are taken to be encodable (\<^verbatim>\<open>credentials.encode()\<close> raises only on a
  lone surrogate).
\<close>

record publisher_base =
  self_url :: py_value
  self_username :: py_value
  self_password :: py_value
  self_default_category :: py_value
  self_default_status :: py_value

record rest_publisher = publisher_base +
  self_base_url :: ustring
  self_api_url :: ustring

record xmlrpc_publisher = publisher_base +
  self_client :: ustring

datatype publisher = RESTPublisher rest_publisher | XMLRPCPublisher xmlrpc_publisher

text \<open>\<^verbatim>\<open>url.startswith(('http://', 'https://'))\<close>\<close>

definition has_scheme :: "ustring \<Rightarrow> bool" where
  "has_scheme u = (py_startswith u (ascii ''http://'') \<or> py_startswith u (ascii ''https://''))"

text \<open>
  \<^verbatim>\<open>WordPressRESTPublisher.__init__\<close>. A \<^verbatim>\<open>url\<close> that is not a string has no
  \<^verbatim>\<open>endswith\<close>: AttributeError.
\<close>

definition rest_init ::
  "py_value \<Rightarrow> py_value \<Rightarrow> py_value \<Rightarrow> py_value \<Rightarrow> py_value \<Rightarrow> py_exception + rest_publisher" where
  "rest_init url username password default_category default_status =
     (case url of
        PyStr u \<Rightarrow>
          (let u1 = (if py_endswith u (ascii ''/xmlrpc.php'') then py_slice_to u (- 12) else u);
               u2 = (if \<not> has_scheme u1 then ascii ''https://'' @ u1 else u1);
               base = py_rstrip (ascii ''/'') u2
           in Inr \<lparr>self_url = url, self_username = username, self_password = password,
                   self_default_category = default_category, self_default_status = default_status,
                   self_base_url = base, self_api_url = base @ ascii ''/wp-json/wp/v2''\<rparr>)
      | _ \<Rightarrow> Inl AttributeError)"

text \<open>
  \<^verbatim>\<open>WordPressXMLRPCPublisher.__init__\<close>: the import of the client library, the scheme,
  then the client.
\<close>

definition xmlrpc_init ::
  "remote \<Rightarrow> py_value \<Rightarrow> py_value \<Rightarrow> py_value \<Rightarrow> py_value \<Rightarrow> py_value \<Rightarrow>
   py_exception + xmlrpc_publisher" where
  "xmlrpc_init w url username password default_category default_status =
     (if \<not> xmlrpc_installed w then Inl ImportError
      else case url of
        PyStr u \<Rightarrow>
          (let u' = (if \<not> has_scheme u then ascii ''https://'' @ u else u) in
           case client_init w u' of
             Some e \<Rightarrow> Inl e
           | None \<Rightarrow>
               Inr \<lparr>self_url = PyStr u', self_username = username, self_password = password,
                     self_default_category = default_category,
                     self_default_status = default_status, self_client = u'\<rparr>)
      | _ \<Rightarrow> Inl AttributeError)"

text \<open>
  \<^verbatim>\<open>WordPressRESTPublisher.test_connection\<close>: only
  \<^verbatim>\<open>requests.exceptions.RequestException\<close> is caught.
\<close>

definition rest_test_connection :: "remote \<Rightarrow> rest_publisher \<Rightarrow> py_exception + bool" where
  "rest_test_connection w self =
     (case get_users_me w (self_api_url self) of
        Raises e \<Rightarrow> (if e = RequestException then Inr False else Inl e)
      | Reply status_code body \<Rightarrow>
          (if status_code = 200 then
             (case body of
                Inl e \<Rightarrow> (if e = RequestException then Inr False else Inl e)
              | Inr user_data \<Rightarrow> Inr True)
           else if status_code = 401 then Inr False
           else Inr False))"

text \<open>\<^verbatim>\<open>WordPressXMLRPCPublisher.test_connection\<close>: every exception is caught.\<close>

definition xmlrpc_test_connection :: "remote \<Rightarrow> xmlrpc_publisher \<Rightarrow> bool" where
  "xmlrpc_test_connection w self =
     (case call_get_terms w (self_client self) of
        Inl e \<Rightarrow> False
      | Inr terms \<Rightarrow> True)"

subsection \<open>publisher.py: create\_publisher\<close>

text \<open>The configuration dictionary, \<^verbatim>\<open>config.get(key, default)\<close> and \<^verbatim>\<open>config[key]\<close>.\<close>

type_synonym config = "string \<rightharpoonup> py_value"

definition config_get :: "config \<Rightarrow> string \<Rightarrow> py_value \<Rightarrow> py_value" where
  "config_get config key dflt = (case config key of None \<Rightarrow> dflt | Some v \<Rightarrow> v)"

definition config_item :: "config \<Rightarrow> string \<Rightarrow> py_exception + py_value" where
  "config_item config key = (case config key of None \<Rightarrow> Inl KeyError | Some v \<Rightarrow> Inr v)"

text \<open>The default category name, U+672A U+5206 U+7C7B.\<close>

definition uncategorized :: ustring where
  "uncategorized = [26410, 20998, 31867]"

text \<open>
  The branch \<^verbatim>\<open>api_method == 'auto'\<close>: the REST attempt in its own \<^verbatim>\<open>try\<close>, whose
  every exception leads on to the XML-RPC attempt, whose every exception gives \<^verbatim>\<open>None\<close>.
\<close>

definition auto_publisher ::
  "remote \<Rightarrow> py_value \<Rightarrow> py_value \<Rightarrow> py_value \<Rightarrow> py_value \<Rightarrow> py_value \<Rightarrow> publisher option" where
  "auto_publisher w url username password category status =
     (let rest_attempt =
            (case rest_init url username password category status of
               Inl e \<Rightarrow> None
             | Inr publisher \<Rightarrow>
                 (case rest_test_connection w publisher of
                    Inl e \<Rightarrow> None
                  | Inr ok \<Rightarrow> if ok then Some publisher else None))
      in case rest_attempt of
           Some publisher \<Rightarrow> Some (RESTPublisher publisher)
         | None \<Rightarrow>
             (case xmlrpc_init w url username password category status of
                Inl e \<Rightarrow> None
              | Inr publisher \<Rightarrow>
                  if xmlrpc_test_connection w publisher then Some (XMLRPCPublisher publisher)
                  else None))"

text \<open>The body of the outer \<^verbatim>\<open>try\<close> of create\_publisher.\<close>

definition create_publisher_try :: "remote \<Rightarrow> config \<Rightarrow> py_exception + publisher option" where
  "create_publisher_try w config =
     (if \<not> truthy (config_get config ''enabled'' (PyBool False)) then Inr None
      else
        let api_method = config_get config ''api_method'' (PyStr (ascii ''auto'')) in
        case config_item config ''url'' of Inl e \<Rightarrow> Inl e | Inr url \<Rightarrow>
        case config_item config ''username'' of Inl e \<Rightarrow> Inl e | Inr username \<Rightarrow>
        case config_item config ''password'' of Inl e \<Rightarrow> Inl e | Inr password \<Rightarrow>
          (let category = config_get config ''category'' (PyStr uncategorized);
               status = config_get config ''status'' (PyStr (ascii ''draft''))
           in if api_method = PyStr (ascii ''auto'') then
                Inr (auto_publisher w url username password category status)
              else if api_method = PyStr (ascii ''rest'') then
                (case rest_init url username password category status of
                   Inl e \<Rightarrow> Inl e
                 | Inr publisher \<Rightarrow> Inr (Some (RESTPublisher publisher)))
              else if api_method = PyStr (ascii ''xmlrpc'') then
                (case xmlrpc_init w url username password category status of
                   Inl e \<Rightarrow> Inl e
                 | Inr publisher \<Rightarrow> Inr (Some (XMLRPCPublisher publisher)))
              else Inr None))"

text \<open>create\_publisher: the outer \<^verbatim>\<open>except Exception\<close> returns \<^verbatim>\<open>None\<close>.\<close>

definition create_publisher :: "remote \<Rightarrow> config \<Rightarrow> py_exception + publisher option" where
  "create_publisher w config =
     (case create_publisher_try w config of
        Inl e \<Rightarrow> Inr None
      | Inr result \<Rightarrow> Inr result)"

subsection \<open>publisher.py: categories and tags over REST\<close>

text \<open>\<^verbatim>\<open>WordPressRESTPublisher.get_all_categories\<close>: every failure gives the empty list.\<close>

definition rest_get_all_categories :: "remote \<Rightarrow> rest_publisher \<Rightarrow> wp_term list" where
  "rest_get_all_categories w self =
     (case get_categories w (self_api_url self) of
        Raises e \<Rightarrow> []
      | Reply status_code body \<Rightarrow>
          (if status_code = 200 then (case body of Inl e \<Rightarrow> [] | Inr categories \<Rightarrow> categories)
           else []))"

text \<open>\<^verbatim>\<open>WordPressRESTPublisher.get_random_category_id\<close>; 1 is the id of the built-in category.\<close>

definition rest_get_random_category_id :: "remote \<Rightarrow> rest_publisher \<Rightarrow> nat \<Rightarrow> int option" where
  "rest_get_random_category_id w self pick =
     (let categories = rest_get_all_categories w self in
      if categories = [] then None
      else
        let valid_categories = filter (\<lambda>cat. term_id cat \<noteq> 1) categories;
            valid_categories = (if valid_categories = [] then categories else valid_categories);
            random_cat = py_choice pick valid_categories
        in Some (term_id random_cat))"

text \<open>The loop \<^verbatim>\<open>for cat in categories: if cat['name'] == name: return cat['id']\<close>.\<close>

fun first_named :: "py_value \<Rightarrow> wp_term list \<Rightarrow> int option" where
  "first_named name [] = None"
| "first_named name (cat # cats) =
     (if PyStr (term_name cat) = name then Some (term_id cat) else first_named name cats)"

text \<open>\<^verbatim>\<open>WordPressRESTPublisher.get_category_id\<close>\<close>

definition rest_get_category_id :: "remote \<Rightarrow> rest_publisher \<Rightarrow> py_value \<Rightarrow> int option" where
  "rest_get_category_id w self category_name =
     (case search_categories w (self_api_url self) category_name of
        Raises e \<Rightarrow> None
      | Reply status_code body \<Rightarrow>
          (if status_code = 200 then
             (case body of Inl e \<Rightarrow> None | Inr categories \<Rightarrow> first_named category_name categories)
           else None))"

text \<open>\<^verbatim>\<open>WordPressRESTPublisher.create_tag\<close>: 201 is created, 400 is taken as "exists already".\<close>

definition rest_create_tag :: "remote \<Rightarrow> rest_publisher \<Rightarrow> ustring \<Rightarrow> int option" where
  "rest_create_tag w self tag_name =
     (case post_tags w (self_api_url self) tag_name of
        Raises e \<Rightarrow> None
      | Reply status_code body \<Rightarrow>
          (if status_code = 201 then (case body of Inl e \<Rightarrow> None | Inr new_id \<Rightarrow> Some new_id)
           else if status_code = 400 then
             (case search_tags w (self_api_url self) tag_name of
                Raises e \<Rightarrow> None
              | Reply status_code2 body2 \<Rightarrow>
                  (if status_code2 = 200 then
                     (case body2 of Inl e \<Rightarrow> None | Inr tags \<Rightarrow> first_named (PyStr tag_name) tags)
                   else None))
           else None))"

text \<open>The loop of publish\_post over the requested tags, filling \<^verbatim>\<open>tag_ids\<close>.\<close>

fun rest_tag_ids :: "remote \<Rightarrow> rest_publisher \<Rightarrow> ustring list \<Rightarrow> int list" where
  "rest_tag_ids w self [] = []"
| "rest_tag_ids w self (tag_name # tags) =
     (case rest_create_tag w self tag_name of
        None \<Rightarrow> rest_tag_ids w self tags
      | Some tag_id \<Rightarrow>
          if tag_id \<noteq> 0 then tag_id # rest_tag_ids w self tags
          else rest_tag_ids w self tags)"

subsection \<open>publisher.py: publish\_post over REST\<close>

text \<open>The category part of publish\_post: the looked-up id, else the random one.\<close>

definition rest_category_id ::
  "remote \<Rightarrow> rest_publisher \<Rightarrow> nat \<Rightarrow> py_value \<Rightarrow> int option" where
  "rest_category_id w self pick category =
     (let category_name = py_or category (self_default_category self);
          category_id = (if truthy category_name then rest_get_category_id w self category_name
                         else None)
      in if \<not> truthy_id category_id then rest_get_random_category_id w self pick
         else category_id)"

text \<open>The dictionary \<^verbatim>\<open>post_data\<close> as it is when the create-post request is sent.\<close>

definition rest_post_data ::
  "remote \<Rightarrow> rest_publisher \<Rightarrow> nat \<Rightarrow> ustring \<Rightarrow> ustring \<Rightarrow> py_value \<Rightarrow> py_value \<Rightarrow>
   ustring list option \<Rightarrow> py_value \<Rightarrow> post_data" where
  "rest_post_data w self pick title content category status tags excerpt =
     (let category_id = rest_category_id w self pick category;
          tag_ids = (case tags of None \<Rightarrow> [] | Some ts \<Rightarrow> rest_tag_ids w self ts)
      in \<lparr>pd_title = title, pd_content = content,
          pd_status = py_or status (self_default_status self),
          pd_excerpt = (if truthy excerpt then Some excerpt else None),
          pd_categories = (case category_id of
                             None \<Rightarrow> None
                           | Some i \<Rightarrow> if i \<noteq> 0 then Some [i] else None),
          pd_tags = (if tag_ids \<noteq> [] then Some tag_ids else None)\<rparr>)"


subsection \<open>publisher.py: categories and publish\_post over XML-RPC\<close>

text \<open>\<^verbatim>\<open>WordPressXMLRPCPublisher.get_all_categories\<close>\<close>

definition xmlrpc_get_all_categories :: "remote \<Rightarrow> xmlrpc_publisher \<Rightarrow> wp_term list" where
  "xmlrpc_get_all_categories w self =
     (case call_get_terms w (self_client self) of
        Inl e \<Rightarrow> []
      | Inr categories \<Rightarrow> categories)"

text \<open>\<^verbatim>\<open>WordPressXMLRPCPublisher.get_random_category\<close>: the name and the id.\<close>

definition xmlrpc_get_random_category ::
  "remote \<Rightarrow> xmlrpc_publisher \<Rightarrow> nat \<Rightarrow> (ustring \<times> int) option" where
  "xmlrpc_get_random_category w self pick =
     (let categories = xmlrpc_get_all_categories w self in
      if categories = [] then None
      else
        let valid_categories = filter (\<lambda>cat. term_id cat \<noteq> 1) categories;
            valid_categories = (if valid_categories = [] then categories else valid_categories);
            random_cat = py_choice pick valid_categories
        in Some (term_name random_cat, term_id random_cat))"

text \<open>\<^verbatim>\<open>WordPressXMLRPCPublisher.get_category_id\<close>\<close>

definition xmlrpc_get_category_id :: "remote \<Rightarrow> xmlrpc_publisher \<Rightarrow> py_value \<Rightarrow> int option" where
  "xmlrpc_get_category_id w self category_name =
     (case call_get_terms w (self_client self) of
        Inl e \<Rightarrow> None
      | Inr categories \<Rightarrow> first_named category_name categories)"

text \<open>
  The category part of the XML-RPC publish\_post: the requested name when its lookup gives
  an id, else the randomly chosen category; the result is the chosen category (its name is
  what the post carries) and, for the random choice, its id.
\<close>

definition xmlrpc_selected_category ::
  "remote \<Rightarrow> xmlrpc_publisher \<Rightarrow> nat \<Rightarrow> py_value \<Rightarrow> py_value \<times> int option" where
  "xmlrpc_selected_category w self pick category =
     (let category_name = py_or category (self_default_category self);
          selected_category_name =
            (if truthy category_name \<and> truthy_id (xmlrpc_get_category_id w self category_name)
             then category_name else PyNone)
      in if \<not> truthy selected_category_name then
           (case xmlrpc_get_random_category w self pick of
              None \<Rightarrow> (PyNone, None)
            | Some random_cat \<Rightarrow> (PyStr (fst random_cat), Some (snd random_cat)))
         else (selected_category_name, None))"

text \<open>The post object as it is when the create-post call is made.\<close>

definition xmlrpc_post_object ::
  "remote \<Rightarrow> xmlrpc_publisher \<Rightarrow> nat \<Rightarrow> ustring \<Rightarrow> ustring \<Rightarrow> py_value \<Rightarrow> py_value \<Rightarrow>
   ustring list option \<Rightarrow> py_value \<Rightarrow> xmlrpc_post" where
  "xmlrpc_post_object w self pick title content category status tags excerpt =
     (let selected_category_name = fst (xmlrpc_selected_category w self pick category)
      in \<lparr>xp_title = title, xp_content = content,
          xp_post_status = py_or status (self_default_status self),
          xp_excerpt = (if truthy excerpt then Some excerpt else None),
          xp_category = (if truthy selected_category_name then Some [selected_category_name]
                         else None),
          xp_post_tag = (case tags of None \<Rightarrow> None
                         | Some ts \<Rightarrow> if ts \<noteq> [] then Some ts else None)\<rparr>)"

text \<open>\<^verbatim>\<open>WordPressXMLRPCPublisher.publish_post\<close>\<close>

definition xmlrpc_publish_post ::
  "remote \<Rightarrow> xmlrpc_publisher \<Rightarrow> nat \<Rightarrow> ustring \<Rightarrow> ustring \<Rightarrow> py_value \<Rightarrow> py_value \<Rightarrow>
   ustring list option \<Rightarrow> py_value \<Rightarrow> ustring option" where
  "xmlrpc_publish_post w self pick title content category status tags excerpt =
     (case call_new_post w (self_client self)
             (xmlrpc_post_object w self pick title content category status tags excerpt) of
        Inl e \<Rightarrow> None
      | Inr post_id \<Rightarrow> Some post_id)"

subsection \<open>Concrete sites, publishers and configurations\<close>

text \<open>A site that answers no request, on a machine without the XML-RPC client library.\<close>

definition unreachable :: remote where
  "unreachable =
     \<lparr>get_users_me = (\<lambda>api. Raises RequestException),
      get_categories = (\<lambda>api. Raises RequestException),
      search_categories = (\<lambda>api name. Raises RequestException),
      post_tags = (\<lambda>api name. Raises RequestException),
      search_tags = (\<lambda>api name. Raises RequestException),
      post_posts = (\<lambda>api post. Raises RequestException),
      xmlrpc_installed = False,
      client_init = (\<lambda>u. None),
      call_get_terms = (\<lambda>u. Inl OtherException),
      call_new_post = (\<lambda>u post. Inl OtherException)\<rparr>"

text \<open>A site whose REST API accepts the credentials.\<close>

definition rest_healthy :: remote where
  "rest_healthy = unreachable\<lparr>get_users_me := (\<lambda>api. Reply 200 (Inr (Some (ascii ''admin''))))\<rparr>"

text \<open>Three categories: the built-in one (id 1) and two others.\<close>

definition three_categories :: "wp_term list" where
  "three_categories =
     [\<lparr>term_id = 1, term_name = uncategorized\<rparr>,
      \<lparr>term_id = 5, term_name = ascii ''News''\<rparr>,
      \<lparr>term_id = 7, term_name = ascii ''Tech''\<rparr>]"

text \<open>
  A site whose REST API rejects the credentials (status 401) and whose XML-RPC endpoint
  accepts them.
\<close>

definition rest_unauthorized :: remote where
  "rest_unauthorized =
     unreachable\<lparr>get_users_me := (\<lambda>api. Reply 401 (Inl OtherException)),
                 xmlrpc_installed := True,
                 call_get_terms := (\<lambda>u. Inr three_categories)\<rparr>"

text \<open>
  A site with the three categories, where the tag \<^verbatim>\<open>new\<close> is created with id 11, the
  tag \<^verbatim>\<open>old\<close> exists with id 12, the creation of any other tag fails with status 500, and
  a post that carries the tags 11 and 12 is created with id 42, any other post is refused
  with status 400. A category search finds the categories of that very name.
\<close>

definition blog :: remote where
  "blog =
     rest_healthy
       \<lparr>get_categories := (\<lambda>api. Reply 200 (Inr three_categories)),
        search_categories :=
          (\<lambda>api name. Reply 200 (Inr (filter (\<lambda>cat. PyStr (term_name cat) = name) three_categories))),
        post_tags :=
          (\<lambda>api name. if name = ascii ''new'' then Reply 201 (Inr 11)
                       else if name = ascii ''old'' then Reply 400 (Inl OtherException)
                       else Reply 500 (Inl OtherException)),
        search_tags :=
          (\<lambda>api name. Reply 200 (Inr [\<lparr>term_id = 12, term_name = ascii ''old''\<rparr>])),
        post_posts :=
          (\<lambda>api post. if pd_tags post = Some [11, 12] then Reply 201 (Inr 42)
                       else Reply 400 (Inl OtherException)),
        xmlrpc_installed := True,
        call_get_terms := (\<lambda>u. Inr three_categories),
        call_new_post := (\<lambda>u post. Inr (ascii ''43''))\<rparr>"

text \<open>The publishers built for \<^verbatim>\<open>https://blog.example\<close>.\<close>

definition example_rest :: rest_publisher where
  "example_rest =
     \<lparr>self_url = PyStr (ascii ''https://blog.example''),
      self_username = PyStr (ascii ''admin''), self_password = PyStr (ascii ''secret''),
      self_default_category = PyStr uncategorized, self_default_status = PyStr (ascii ''draft''),
      self_base_url = ascii ''https://blog.example'',
      self_api_url = ascii ''https://blog.example/wp-json/wp/v2''\<rparr>"

definition example_xmlrpc :: xmlrpc_publisher where
  "example_xmlrpc =
     \<lparr>self_url = PyStr (ascii ''https://blog.example''),
      self_username = PyStr (ascii ''admin''), self_password = PyStr (ascii ''secret''),
      self_default_category = PyStr uncategorized, self_default_status = PyStr (ascii ''draft''),
      self_client = ascii ''https://blog.example''\<rparr>"

text \<open>A configuration in auto mode, once without the key \<^verbatim>\<open>enabled\<close> and once enabled.\<close>

definition config_auto :: config where
  "config_auto =
     [''api_method'' \<mapsto> PyStr (ascii ''auto''),
      ''url'' \<mapsto> PyStr (ascii ''https://blog.example''),
      ''username'' \<mapsto> PyStr (ascii ''admin''),
      ''password'' \<mapsto> PyStr (ascii ''secret'')]"

definition config_auto_enabled :: config where
  "config_auto_enabled = config_auto(''enabled'' \<mapsto> PyBool True)"

section \<open>Properties\<close>

subsection \<open>Strings, forbidden words and the retry loop\<close>

lemma py_startswith_iff: "py_startswith t w \<longleftrightarrow> (\<exists>ss. t = w @ ss)"
  by (induction t w rule: py_startswith.induct) auto

lemma py_in_iff: "py_in w t \<longleftrightarrow> (\<exists>ps ss. t = ps @ w @ ss)"
proof (induction t)
  case Nil
  show ?case by auto
next
  case (Cons c cs)
  show ?case
  proof
    assume "py_in w (c # cs)"
    then consider "py_startswith (c # cs) w" | "py_in w cs" by auto
    then show "\<exists>ps ss. c # cs = ps @ w @ ss"
    proof cases
      case 1
      then obtain ss where "c # cs = w @ ss" by (auto simp: py_startswith_iff)
      then have "c # cs = [] @ w @ ss" by simp
      then show ?thesis by blast
    next
      case 2
      then obtain ps ss where "cs = ps @ w @ ss" using Cons.IH by blast
      then have "c # cs = (c # ps) @ w @ ss" by simp
      then show ?thesis by blast
    qed
  next
    assume "\<exists>ps ss. c # cs = ps @ w @ ss"
    then obtain ps ss where e: "c # cs = ps @ w @ ss" by blast
    show "py_in w (c # cs)"
    proof (cases ps)
      case Nil
      then have "py_startswith (c # cs) w" using e by (auto simp: py_startswith_iff)
      then show ?thesis by simp
    next
      case (Cons p ps')
      then have "cs = ps' @ w @ ss" using e by simp
      then have "py_in w cs" using Cons.IH by blast
      then show ?thesis by simp
    qed
  qed
qed

lemma forbidden_loop_iff:
  "forbidden_loop lower ws txt \<longleftrightarrow> (\<exists>w \<in> set ws. py_in (lower w) txt)"
  by (induction ws) auto

lemma check_forbidden_words_iff:
  "check_forbidden_words lower fw t \<longleftrightarrow> (\<exists>w \<in> set fw. py_in (lower w) (lower t))"
  by (auto simp: check_forbidden_words_def forbidden_loop_iff)

lemma clean_titles_filter:
  "clean_titles lower fw ts =
     filter (\<lambda>t. t \<noteq> [] \<and> \<not> check_forbidden_words lower fw t) (map (py_lstrip numbering_chars) ts)"
  by (induction ts) (auto simp: Let_def)

lemma set_py_slice_to: "set (py_slice_to xs n) \<subseteq> set xs"
  by (auto simp: py_slice_to_def dest: in_set_takeD)

lemma length_py_slice_to: "0 \<le> n \<Longrightarrow> int (length (py_slice_to xs n)) \<le> n"
  by (simp add: py_slice_to_def)

lemma titles_loop_origin:
  "titles_loop lower fw llm kw n remaining attempt cleaned = Inr ts \<Longrightarrow> t \<in> set ts \<Longrightarrow>
   (\<exists>c. cleaned = Some c \<and> t \<in> set c) \<or>
   (\<exists>a content. attempt \<le> a \<and> a < attempt + remaining \<and> llm kw n a = Inr content \<and>
      t \<in> set (clean_titles lower fw (parse_titles content)))"
proof (induction remaining arbitrary: attempt cleaned)
  case 0
  then show ?case by (auto split: option.splits)
next
  case (Suc r)
  from Suc.prems(1) obtain content where c: "llm kw n attempt = Inr content"
    by (auto split: sum.splits)
  let ?ct = "clean_titles lower fw (parse_titles content)"
  show ?case
  proof (cases "n \<le> int (length ?ct)")
    case True
    then have "ts = py_slice_to ?ct n" using Suc.prems(1) c by (simp add: Let_def)
    then have "t \<in> set ?ct" using Suc.prems(2) set_py_slice_to[of ?ct n] by auto
    then show ?thesis using c by (intro disjI2 exI[of _ attempt] exI[of _ content]) simp
  next
    case False
    then have "titles_loop lower fw llm kw n r (Suc attempt) (Some ?ct) = Inr ts"
      using Suc.prems(1) c by (simp add: Let_def)
    from Suc.IH[OF this Suc.prems(2)] show ?thesis
    proof
      assume "\<exists>c. Some ?ct = Some c \<and> t \<in> set c"
      then have "t \<in> set ?ct" by simp
      then show ?thesis using c by (intro disjI2 exI[of _ attempt] exI[of _ content]) simp
    next
      assume "\<exists>a content. Suc attempt \<le> a \<and> a < Suc attempt + r \<and> llm kw n a = Inr content \<and>
        t \<in> set (clean_titles lower fw (parse_titles content))"
      then obtain a content' where "Suc attempt \<le> a" "a < Suc attempt + r"
        "llm kw n a = Inr content'" "t \<in> set (clean_titles lower fw (parse_titles content'))"
        by blast
      then show ?thesis by (intro disjI2 exI[of _ a] exI[of _ content']) simp
    qed
  qed
qed

lemma generate_titles_origin:
  assumes "t \<in> set (generate_titles lower fw llm kw n max_retries)"
  shows "\<exists>a content. a < nat max_retries \<and> llm kw n a = Inr content \<and>
      t \<in> set (clean_titles lower fw (parse_titles content))"
proof -
  show ?thesis
  proof (cases "titles_loop lower fw llm kw n (nat max_retries) 0 None")
    case (Inl e)
    then show ?thesis using assms by (simp add: generate_titles_def)
  next
    case (Inr ts)
    then have "t \<in> set ts" using assms by (simp add: generate_titles_def)
    from titles_loop_origin[OF Inr this] show ?thesis by auto
  qed
qed

lemma titles_loop_length:
  "titles_loop lower fw llm kw n remaining attempt cleaned = Inr ts \<Longrightarrow> 0 \<le> n \<Longrightarrow>
   (\<And>c. cleaned = Some c \<Longrightarrow> int (length c) \<le> n) \<Longrightarrow> int (length ts) \<le> n"
proof (induction remaining arbitrary: attempt cleaned)
  case 0
  then show ?case by (auto split: option.splits)
next
  case (Suc r)
  from Suc.prems(1) obtain content where c: "llm kw n attempt = Inr content"
    by (auto split: sum.splits)
  let ?ct = "clean_titles lower fw (parse_titles content)"
  show ?case
  proof (cases "n \<le> int (length ?ct)")
    case True
    then have "ts = py_slice_to ?ct n" using Suc.prems(1) c by (simp add: Let_def)
    then show ?thesis using length_py_slice_to[OF Suc.prems(2)] by simp
  next
    case False
    then have "titles_loop lower fw llm kw n r (Suc attempt) (Some ?ct) = Inr ts"
      using Suc.prems(1) c by (simp add: Let_def)
    then show ?thesis using Suc.IH[of "Suc attempt" "Some ?ct"] Suc.prems(2) False by simp
  qed
qed

lemma generate_titles_length:
  assumes "0 \<le> n"
  shows "int (length (generate_titles lower fw llm kw n max_retries)) \<le> n"
proof (cases "titles_loop lower fw llm kw n (nat max_retries) 0 None")
  case (Inl e)
  then show ?thesis using assms by (simp add: generate_titles_def)
next
  case (Inr ts)
  from titles_loop_length[OF Inr assms] show ?thesis using Inr by (simp add: generate_titles_def)
qed

lemma titles_loop_exhausted:
  "(\<And>a. attempt \<le> a \<Longrightarrow> a < attempt + remaining \<Longrightarrow>
      \<exists>content. llm kw n a = Inr content \<and>
        int (length (clean_titles lower fw (parse_titles content))) < n) \<Longrightarrow>
   titles_loop lower fw llm kw n remaining attempt cleaned =
     (if remaining = 0 then (case cleaned of None \<Rightarrow> Inl UnboundLocalError | Some ts \<Rightarrow> Inr ts)
      else (case llm kw n (attempt + remaining - 1) of
              Inl e \<Rightarrow> Inl e
            | Inr content \<Rightarrow> Inr (clean_titles lower fw (parse_titles content))))"
proof (induction remaining arbitrary: attempt cleaned)
  case 0
  then show ?case by simp
next
  case (Suc r)
  from Suc.prems[of attempt] obtain content where c: "llm kw n attempt = Inr content"
    and l: "int (length (clean_titles lower fw (parse_titles content))) < n" by auto
  have step: "titles_loop lower fw llm kw n (Suc r) attempt cleaned =
      titles_loop lower fw llm kw n r (Suc attempt) (Some (clean_titles lower fw (parse_titles content)))"
    using c l by (simp add: Let_def)
  have "\<And>a. Suc attempt \<le> a \<Longrightarrow> a < Suc attempt + r \<Longrightarrow>
      \<exists>content. llm kw n a = Inr content \<and>
        int (length (clean_titles lower fw (parse_titles content))) < n"
    using Suc.prems by simp
  from Suc.IH[OF this] show ?case unfolding step using c by (cases r) auto
qed

subsection \<open>Mixed image mode\<close>

text \<open>
  Claim C9, as stated, gives the odd remainder to the search half. The code computes the
  search half as the floor: for three images one is searched and two are generated.
\<close>

theorem mixed_split_search_not_ceiling:
  "mixed_split 3 = (1, 2) \<and> fst (mixed_split 3) \<noteq> (3 + 1) div 2"
  by (simp add: mixed_split_def)

text \<open>
  Claim C9, amended: in mixed mode the two halves sum to the requested count, the search
  half is the floor of k/2 and the generation half is the ceiling of k/2, so an odd
  remainder goes to the generation half.
\<close>

theorem mixed_split_floor_ceiling:
  "fst (mixed_split k) + snd (mixed_split k) = k \<and>
   fst (mixed_split k) = k div 2 \<and>
   snd (mixed_split k) = (k + 1) div 2 \<and>
   fst (mixed_split k) \<le> snd (mixed_split k) \<and>
   snd (mixed_split k) - fst (mixed_split k) = k mod 2"
  unfolding mixed_split_def Let_def fst_conv snd_conv by presburger

text \<open>
  The split is what mixed mode requests: the smaller half from the image search (nothing for
  a single image), the larger half from image generation.
\<close>

lemma image_requests_mixed:
  assumes "0 < k"
  shows "image_requests True k ''mixed'' =
     (if 0 < k div 2 then [SearchImages (k div 2)] else []) @ [GenerateImages (k - k div 2)]"
proof -
  have "0 < k - k div 2" using assms by linarith
  then show ?thesis using assms by (simp add: image_requests_def mixed_split_def Let_def)
qed

subsection \<open>generate\_titles\<close>

lemma clean_titles_member:
  assumes "t \<in> set (clean_titles lower fw ts)"
  shows "t \<noteq> [] \<and> \<not> check_forbidden_words lower fw t \<and>
    (\<exists>line \<in> set ts. t = py_lstrip numbering_chars line)"
  using assms by (auto simp: clean_titles_filter)

lemma py_lstrip_run:
  "\<exists>run. line = run @ py_lstrip chars line \<and> set run \<subseteq> set chars"
proof -
  let ?P = "\<lambda>c. c \<in> set chars"
  have "line = takeWhile ?P line @ py_lstrip chars line"
    by (simp add: py_lstrip_def)
  moreover have "set (takeWhile ?P line) \<subseteq> set chars"
    by (auto dest: set_takeWhileD)
  ultimately show ?thesis by blast
qed

lemma py_lstrip_hd: "py_lstrip chars line \<noteq> [] \<Longrightarrow> hd (py_lstrip chars line) \<notin> set chars"
  unfolding py_lstrip_def by (rule hd_dropWhile)

text \<open>
  Claim C5, amended: for every keyword, every n and every forbidden-word list, no title
  returned by generate\_titles contains the lowered form of a forbidden word inside its own
  lowered form; and for every n that is not negative the result has at most n titles.
\<close>

theorem generate_titles_no_forbidden_word:
  "(\<forall>t \<in> set (generate_titles lower fw llm kw n max_retries).
      \<forall>w \<in> set fw. \<not> (\<exists>ps ss. lower t = ps @ lower w @ ss)) \<and>
   (0 \<le> n \<longrightarrow> int (length (generate_titles lower fw llm kw n max_retries)) \<le> n)"
proof (intro conjI ballI impI)
  fix t w
  assume t: "t \<in> set (generate_titles lower fw llm kw n max_retries)" and w: "w \<in> set fw"
  from generate_titles_origin[OF t] obtain a content where
    "t \<in> set (clean_titles lower fw (parse_titles content))" by blast
  then have "\<not> check_forbidden_words lower fw t" using clean_titles_member by blast
  then have "\<not> py_in (lower w) (lower t)" using w by (auto simp: check_forbidden_words_iff)
  then show "\<not> (\<exists>ps ss. lower t = ps @ lower w @ ss)" by (simp add: py_in_iff)
next
  assume "0 \<le> n"
  then show "int (length (generate_titles lower fw llm kw n max_retries)) \<le> n"
    by (rule generate_titles_length)
qed

text \<open>The answer of \<open>llm_year\<close> with the forbidden word \<^verbatim>\<open>B\<close>: the second line is filtered.\<close>

lemmas eval_defs = parse_titles_def py_strip_def py_isspace_def py_lstrip_def numbering_chars_def
  check_forbidden_words_def ascii_lower_def py_slice_to_def Let_def

lemma parse_year:
  "parse_titles [50, 48, 50, 53, 24180, 65, 73, 10, 50, 46, 32, 120, 66, 121] =
     [[50, 48, 50, 53, 24180, 65, 73], [50, 46, 32, 120, 66, 121]]"
  by (simp add: eval_defs)

lemma clean_year:
  "clean_titles ascii_lower [[66]]
     (parse_titles [50, 48, 50, 53, 24180, 65, 73, 10, 50, 46, 32, 120, 66, 121])
   = [[24180, 65, 73]]"
  unfolding parse_year by (simp add: eval_defs)

lemma year_eval: "generate_titles ascii_lower [[66]] llm_year [107] 1 3 = [[24180, 65, 73]]"
  by (simp add: generate_titles_def numeral_3_eq_3 llm_year_def clean_year py_slice_to_def)

lemma clean_a: "clean_titles ascii_lower [] (parse_titles [97]) = [[97]]"
  by (simp add: eval_defs)

lemma clean_b: "clean_titles ascii_lower [] (parse_titles [98]) = [[98]]"
  by (simp add: eval_defs)

lemma clean_ab: "clean_titles ascii_lower [] (parse_titles [97, 10, 98]) = [[97], [98]]"
  by (simp add: eval_defs)

lemma two_lines_eval: "generate_titles ascii_lower [] llm_two_lines [107] (- 1) 3 = [[97]]"
  by (simp add: generate_titles_def numeral_3_eq_3 llm_two_lines_def clean_ab py_slice_to_def)

lemma retry_eval: "generate_titles ascii_lower [] llm_retry [107] 2 2 = [[98]]"
  by (simp add: generate_titles_def numeral_2_eq_2 llm_retry_def clean_a clean_b py_slice_to_def)

text \<open>Claim C5, the amended theorem at a concrete input, with one title requested.\<close>

theorem generate_titles_no_forbidden_word_witness:
  "generate_titles ascii_lower [[66]] llm_year [107] 1 3 = [[24180, 65, 73]] \<and>
   \<not> (\<exists>ps ss. ascii_lower [24180, 65, 73] = ps @ ascii_lower [66] @ ss) \<and>
   (0::int) \<le> 1 \<and>
   int (length (generate_titles ascii_lower [[66]] llm_year [107] 1 3)) \<le> 1"
  using generate_titles_no_forbidden_word [of ascii_lower "[[66]]" llm_year "[107]" 1 3]
  by (simp add: year_eval)

text \<open>
  Claim C5, as stated, bounds the length by n for every n. With \<^verbatim>\<open>n = -1\<close> the test
  \<^verbatim>\<open>len(cleaned_titles) >= n\<close> holds at once and \<^verbatim>\<open>cleaned_titles[:-1]\<close> drops only
  the last of the two clean titles: one title is returned.
\<close>

theorem generate_titles_negative_n_too_long:
  "generate_titles ascii_lower [] llm_two_lines [107] (- 1) 3 = [[97]] \<and>
   \<not> int (length (generate_titles ascii_lower [] llm_two_lines [107] (- 1) 3)) \<le> - 1"
proof -
  have "generate_titles ascii_lower [] llm_two_lines [107] (- 1) 3 = [[97]]"
    by (rule two_lines_eval)
  then show ?thesis by simp
qed

text \<open>
  Claim C6, as stated, has the clean titles of all attempts returned on exhaustion. With two
  titles requested and two attempts, the first attempt yields the clean title \<^verbatim>\<open>a\<close>
  and the second the clean title \<^verbatim>\<open>b\<close>: only \<^verbatim>\<open>b\<close> is returned.
\<close>

theorem generate_titles_drops_earlier_attempts:
  "llm_retry [107] 2 0 = Inr [97] \<and>
   clean_titles ascii_lower [] (parse_titles [97]) = [[97]] \<and>
   generate_titles ascii_lower [] llm_retry [107] 2 2 = [[98]] \<and>
   [97] \<notin> set (generate_titles ascii_lower [] llm_retry [107] 2 2)"
proof -
  have a: "llm_retry [107] 2 0 = Inr [97]" by (simp add: llm_retry_def)
  have b: "clean_titles ascii_lower [] (parse_titles [97]) = [[97]]" by (rule clean_a)
  have c: "generate_titles ascii_lower [] llm_retry [107] 2 2 = [[98]]" by (rule retry_eval)
  show ?thesis using a b c by simp
qed

text \<open>
  Claim C6, amended: when generate\_titles makes at least one attempt, no attempt raises and
  every attempt leaves fewer than n clean titles, it returns the clean titles of the last
  attempt only (fewer than n, possibly none); \<^verbatim>\<open>cleaned_titles\<close> is assigned anew in
  every attempt, so the titles of earlier attempts are not kept.
\<close>

theorem generate_titles_exhausted_last_attempt:
  assumes "1 \<le> max_retries"
    and "\<forall>a < nat max_retries. \<exists>content. llm kw n a = Inr content \<and>
           int (length (clean_titles lower fw (parse_titles content))) < n"
  shows "\<exists>content. llm kw n (nat max_retries - 1) = Inr content \<and>
           int (length (clean_titles lower fw (parse_titles content))) < n \<and>
           generate_titles lower fw llm kw n max_retries =
             clean_titles lower fw (parse_titles content)"
proof -
  have pos: "nat max_retries \<noteq> 0" "nat max_retries - 1 < nat max_retries"
    using assms(1) by auto
  from assms(2) pos(2) obtain content where c: "llm kw n (nat max_retries - 1) = Inr content"
    and l: "int (length (clean_titles lower fw (parse_titles content))) < n" by blast
  have "\<And>a. 0 \<le> a \<Longrightarrow> a < 0 + nat max_retries \<Longrightarrow>
      \<exists>content. llm kw n a = Inr content \<and>
        int (length (clean_titles lower fw (parse_titles content))) < n"
    using assms(2) by simp
  from titles_loop_exhausted[of 0 "nat max_retries" llm kw n lower fw None, OF this]
  have "titles_loop lower fw llm kw n (nat max_retries) 0 None =
      Inr (clean_titles lower fw (parse_titles content))"
    using pos(1) c by simp
  then show ?thesis using c l by (auto simp: generate_titles_def)
qed

text \<open>Claim C6, the amended theorem at the two attempts of \<open>llm_retry\<close>.\<close>

theorem generate_titles_exhausted_last_attempt_witness:
  "(1::int) \<le> 2 \<and>
   llm_retry [107] 2 0 = Inr [97] \<and> int (length (clean_titles ascii_lower [] (parse_titles [97]))) < 2 \<and>
   llm_retry [107] 2 1 = Inr [98] \<and> int (length (clean_titles ascii_lower [] (parse_titles [98]))) < 2 \<and>
   generate_titles ascii_lower [] llm_retry [107] 2 2 = clean_titles ascii_lower [] (parse_titles [98])"
proof -
  have a: "clean_titles ascii_lower [] (parse_titles [97]) = [[97]]" by (rule clean_a)
  have b: "clean_titles ascii_lower [] (parse_titles [98]) = [[98]]" by (rule clean_b)
  have h: "\<forall>a < nat 2. \<exists>content. llm_retry [107] 2 a = Inr content \<and>
           int (length (clean_titles ascii_lower [] (parse_titles content))) < 2"
    by (simp add: llm_retry_def a b)
  have one: "(1::int) \<le> 2" by simp
  from generate_titles_exhausted_last_attempt
    [where max_retries = 2 and llm = llm_retry and kw = "[107]" and n = 2
       and lower = ascii_lower and fw = "[]", OF one h]
  have "generate_titles ascii_lower [] llm_retry [107] 2 2 = clean_titles ascii_lower [] (parse_titles [98])"
    by (auto simp: llm_retry_def)
  then show ?thesis by (simp add: llm_retry_def a b)
qed

text \<open>
  Claim C10: every title returned by generate\_titles is a line of some attempt's answer
  without its maximal leading run of characters among the digits, the full stop, U+3001 and
  the space: the line is that run followed by the title, the title is not empty and does not
  begin with such a character. Leading digits of the title's own text go with the run.
\<close>

theorem generate_titles_leading_run_removed:
  "\<forall>t \<in> set (generate_titles lower fw llm kw n max_retries).
     t \<noteq> [] \<and> hd t \<notin> set numbering_chars \<and>
     (\<exists>a content line run. a < nat max_retries \<and> llm kw n a = Inr content \<and>
        line \<in> set (parse_titles content) \<and> line = run @ t \<and> set run \<subseteq> set numbering_chars)"
proof
  fix t
  assume t: "t \<in> set (generate_titles lower fw llm kw n max_retries)"
  from generate_titles_origin[OF t] obtain a content where a: "a < nat max_retries"
    and c: "llm kw n a = Inr content"
    and m: "t \<in> set (clean_titles lower fw (parse_titles content))" by blast
  from clean_titles_member[OF m] obtain line where ne: "t \<noteq> []"
    and line: "line \<in> set (parse_titles content)" and eq: "t = py_lstrip numbering_chars line"
    by blast
  from py_lstrip_run[of line numbering_chars] obtain run where
    run: "line = run @ t" "set run \<subseteq> set numbering_chars" using eq by blast
  have "hd t \<notin> set numbering_chars" using ne eq py_lstrip_hd by blast
  then show "t \<noteq> [] \<and> hd t \<notin> set numbering_chars \<and>
     (\<exists>a content line run. a < nat max_retries \<and> llm kw n a = Inr content \<and>
        line \<in> set (parse_titles content) \<and> line = run @ t \<and> set run \<subseteq> set numbering_chars)"
    using ne a c line run by blast
qed

text \<open>Claim C10 at a title that begins with the year 2025: the four digits are removed.\<close>

theorem generate_titles_leading_run_removed_witness:
  "llm_year [107] 1 0 = Inr [50, 48, 50, 53, 24180, 65, 73, 10, 50, 46, 32, 120, 66, 121] \<and>
   parse_titles [50, 48, 50, 53, 24180, 65, 73, 10, 50, 46, 32, 120, 66, 121] =
     [[50, 48, 50, 53, 24180, 65, 73], [50, 46, 32, 120, 66, 121]] \<and>
   generate_titles ascii_lower [[66]] llm_year [107] 1 3 = [[24180, 65, 73]] \<and>
   hd [24180, 65, 73] \<notin> set numbering_chars"
proof -
  have a: "parse_titles [50, 48, 50, 53, 24180, 65, 73, 10, 50, 46, 32, 120, 66, 121] =
     [[50, 48, 50, 53, 24180, 65, 73], [50, 46, 32, 120, 66, 121]]"
    by (rule parse_year)
  have b: "generate_titles ascii_lower [[66]] llm_year [107] 1 3 = [[24180, 65, 73]]"
    by (rule year_eval)
  from generate_titles_leading_run_removed [of ascii_lower "[[66]]" llm_year "[107]" 1 3]
  have "hd [24180, 65, 73] \<notin> set numbering_chars" unfolding b by simp
  then show ?thesis using a b by (simp add: llm_year_def)
qed

subsection \<open>The placeholder fallback\<close>

lemma randint_range: "1 \<le> randint rnd i \<and> randint rnd i \<le> 1000"
  by (simp add: randint_def)

lemma draw_unused_Some:
  assumes "draw_unused rnd used pos = Some y"
  shows "fst y \<notin> used \<and> 1 \<le> fst y \<and> fst y \<le> 1000 \<and> pos < snd y"
proof -
  let ?Q = "\<lambda>(rnd::nat \<Rightarrow> nat) (used::nat set) (pos::nat) (y::nat \<times> nat).
              fst y \<notin> used \<and> 1 \<le> fst y \<and> fst y \<le> 1000 \<and> pos < snd y"
  have step: "?Q rnd used pos y"
    if ih: "\<And>rnd used pos y. f rnd used pos = Some y \<Longrightarrow> ?Q rnd used pos y"
      and eq: "(if randint rnd pos \<in> used then f rnd used (Suc pos)
                else Some (randint rnd pos, Suc pos)) = Some y"
    for f rnd used pos y
  proof (cases "randint rnd pos \<in> used")
    case True
    then have "f rnd used (Suc pos) = Some y" using eq by simp
    from ih[OF this] show ?thesis by simp
  next
    case False
    then have "y = (randint rnd pos, Suc pos)" using eq by simp
    then show ?thesis using False randint_range[of rnd pos] by simp
  qed
  show ?thesis
    by (rule draw_unused.raw_induct[where P = ?Q, OF step assms])
qed

lemma draw_unused_fresh:
  "randint rnd pos \<notin> used \<Longrightarrow> draw_unused rnd used pos = Some (randint rnd pos, Suc pos)"
  by (subst draw_unused.simps) simp

lemma draw_unused_redraw:
  "randint rnd pos \<in> used \<Longrightarrow> draw_unused rnd used pos = draw_unused rnd used (Suc pos)"
  by (subst draw_unused.simps) simp

lemma draw_unused_returns:
  "randint rnd (pos + d) \<notin> used \<Longrightarrow> \<exists>y. draw_unused rnd used pos = Some y"
proof (induction d arbitrary: pos)
  case 0
  then show ?case by (simp add: draw_unused_fresh)
next
  case (Suc d)
  show ?case
  proof (cases "randint rnd pos \<in> used")
    case True
    have "randint rnd (Suc pos + d) \<notin> used" using Suc.prems by simp
    from Suc.IH[OF this] show ?thesis using True by (simp add: draw_unused_redraw)
  next
    case False
    then show ?thesis by (simp add: draw_unused_fresh)
  qed
qed

lemma picsum_loop_sound:
  "picsum_loop rnd k (set ids0) pos (map picsum_url ids0) = Some r \<Longrightarrow>
   distinct ids0 \<Longrightarrow> set ids0 \<subseteq> {1..1000} \<Longrightarrow>
   \<exists>ids. r = map picsum_url ids \<and> length ids = length ids0 + k \<and> distinct ids \<and>
         set ids \<subseteq> {1..1000}"
proof (induction k arbitrary: ids0 pos)
  case 0
  then show ?case by auto
next
  case (Suc k)
  from Suc.prems(1) obtain v p' where d: "draw_unused rnd (set ids0) pos = Some (v, p')"
    by (cases "draw_unused rnd (set ids0) pos") auto
  from draw_unused_Some[OF d] have v: "v \<notin> set ids0" "1 \<le> v" "v \<le> 1000" by simp_all
  have "picsum_loop rnd k (set (ids0 @ [v])) p' (map picsum_url (ids0 @ [v])) = Some r"
    using Suc.prems(1) d by simp
  moreover have "distinct (ids0 @ [v])" using Suc.prems(2) v(1) by simp
  moreover have "set (ids0 @ [v]) \<subseteq> {1..1000}" using Suc.prems(3) v(2,3) by simp
  ultimately obtain ids where "r = map picsum_url ids" "length ids = length (ids0 @ [v]) + k"
    "distinct ids" "set ids \<subseteq> {1..1000}"
    using Suc.IH[of "ids0 @ [v]" p'] by blast
  then show ?case by (intro exI[of _ ids]) simp
qed

lemma distinct_ids_bound:
  assumes "distinct ids" "set ids \<subseteq> {1..(1000::nat)}"
  shows "length ids \<le> 1000"
proof -
  have "card (set ids) \<le> card {1..(1000::nat)}" using assms(2) by (intro card_mono) simp_all
  then show ?thesis using assms(1) by (simp add: distinct_card)
qed

text \<open>
  Whatever the draws and the count: when \_search\_picsum returns, it returns one URL per
  requested image, with pairwise distinct identifiers from 1 to 1000; so it can return only
  for counts up to 1000.
\<close>

lemma search_picsum_sound:
  assumes "search_picsum rnd query k = Some urls"
  shows "\<exists>ids. urls = map picsum_url ids \<and> length ids = nat k \<and> distinct ids \<and>
         set ids \<subseteq> {1..1000} \<and> k \<le> 1000"
proof -
  have "picsum_loop rnd (nat k) (set []) 0 (map picsum_url []) = Some urls"
    using assms by (simp add: search_picsum_def)
  from picsum_loop_sound[OF this] obtain ids where ids: "urls = map picsum_url ids"
    "length ids = nat k" "distinct ids" "set ids \<subseteq> {1..1000}" by auto
  from distinct_ids_bound[OF ids(3,4)] have "k \<le> 1000" using ids(2) by simp
  then show ?thesis using ids by blast
qed

lemma unused_id_exists:
  assumes "distinct ids0" "set ids0 \<subseteq> {1..(1000::nat)}" "length ids0 < 1000"
  shows "\<exists>v. 1 \<le> v \<and> v \<le> 1000 \<and> v \<notin> set ids0"
proof (rule ccontr)
  assume "\<not> ?thesis"
  then have "{1..1000} \<subseteq> set ids0" by auto
  then have "card {1..(1000::nat)} \<le> card (set ids0)" by (intro card_mono) simp_all
  then show False using assms(1,3) by (simp add: distinct_card)
qed

lemma picsum_loop_returns:
  "fair rnd \<Longrightarrow> distinct ids0 \<Longrightarrow> set ids0 \<subseteq> {1..1000} \<Longrightarrow> length ids0 + k \<le> 1000 \<Longrightarrow>
   \<exists>r. picsum_loop rnd k (set ids0) pos (map picsum_url ids0) = Some r"
proof (induction k arbitrary: ids0 pos)
  case 0
  then show ?case by simp
next
  case (Suc k)
  have "length ids0 < 1000" using Suc.prems(4) by simp
  from unused_id_exists[OF Suc.prems(2,3) this] obtain u where
    u: "1 \<le> u" "u \<le> 1000" "u \<notin> set ids0" by blast
  from Suc.prems(1) u(1,2) obtain j where j: "pos \<le> j" "randint rnd j = u"
    unfolding fair_def by blast
  then have "randint rnd (pos + (j - pos)) \<notin> set ids0" using u(3) by simp
  from draw_unused_returns[OF this] obtain v p' where
    d: "draw_unused rnd (set ids0) pos = Some (v, p')" by force
  from draw_unused_Some[OF d] have v: "v \<notin> set ids0" "1 \<le> v" "v \<le> 1000" by simp_all
  have "distinct (ids0 @ [v])" using Suc.prems(2) v(1) by simp
  moreover have "set (ids0 @ [v]) \<subseteq> {1..1000}" using Suc.prems(3) v(2,3) by simp
  moreover have "length (ids0 @ [v]) + k \<le> 1000" using Suc.prems(4) by simp
  ultimately obtain r where
    "picsum_loop rnd k (set (ids0 @ [v])) p' (map picsum_url (ids0 @ [v])) = Some r"
    using Suc.IH[OF Suc.prems(1), of "ids0 @ [v]" p'] by blast
  then show ?case using d by simp
qed

text \<open>
  Claim C8, amended: for every requested count k from 0 to 1000, when the random source keeps
  producing every identifier (so that each redraw loop ends), \_search\_picsum returns
  exactly k URLs \<^verbatim>\<open>https://picsum.photos/id/{id}/800/600\<close>, each with an identifier
  from 1 to 1000, the k identifiers pairwise distinct.
\<close>

theorem search_picsum_distinct_ids:
  assumes "fair rnd" "0 \<le> k" "k \<le> 1000"
  shows "\<exists>ids. search_picsum rnd query k = Some (map picsum_url ids) \<and>
           int (length ids) = k \<and> distinct ids \<and> (\<forall>i \<in> set ids. 1 \<le> i \<and> i \<le> 1000)"
proof -
  have "length ([]::nat list) + nat k \<le> 1000" using assms(3) by simp
  from picsum_loop_returns[OF assms(1) _ _ this, of 0] obtain urls where
    r: "search_picsum rnd query k = Some urls" by (auto simp: search_picsum_def)
  from search_picsum_sound[OF r] obtain ids where "urls = map picsum_url ids"
    "length ids = nat k" "distinct ids" "set ids \<subseteq> {1..1000}" by blast
  then show ?thesis using r assms(2) by (intro exI[of _ ids]) auto
qed

lemma fair_rnd_repeat: "fair rnd_repeat"
  unfolding fair_def
proof (intro allI impI)
  fix pos v :: nat
  assume v: "1 \<le> v \<and> v \<le> 1000"
  define j where "j = 1000 * (pos + 1) + (v - 1)"
  have j1: "j \<noteq> 1" and jp: "pos \<le> j" by (simp_all add: j_def)
  have "j mod 1000 = (v - 1) mod 1000" unfolding j_def by (rule mod_mult_self4)
  also have "\<dots> = v - 1" using v by (intro mod_less) arith
  finally have m: "j mod 1000 = v - 1" .
  have "randint rnd_repeat j = 1 + j mod 1000" using j1 by (simp add: randint_def rnd_repeat_def)
  then have "randint rnd_repeat j = v" using m v by simp
  then show "\<exists>j\<ge>pos. randint rnd_repeat j = v" using jp by (intro exI[of _ j]) simp
qed

text \<open>
  Claim C8, as stated, covers every count k. For k = 1001 the function does not return: after
  1000 images every identifier is used and the redraw loop runs forever.
\<close>

theorem search_picsum_1001_never_returns: "search_picsum rnd_repeat [] 1001 = None"
proof (cases "search_picsum rnd_repeat [] 1001")
  case None
  then show ?thesis .
next
  case (Some urls)
  from search_picsum_sound[OF Some] show ?thesis by simp
qed

lemma picsum_loop_step:
  "draw_unused rnd used pos = Some (v, p') \<Longrightarrow>
   picsum_loop rnd (Suc k) used pos images =
     picsum_loop rnd k (insert v used) p' (images @ [picsum_url v])"
  by simp

lemma draw_repeat_0: "draw_unused rnd_repeat {} 0 = Some (1, 1)"
proof -
  have "draw_unused rnd_repeat {} 0 = Some (randint rnd_repeat 0, Suc 0)"
    by (rule draw_unused_fresh) simp
  then show ?thesis by (simp add: randint_def rnd_repeat_def)
qed

lemma draw_repeat_1: "draw_unused rnd_repeat (insert 1 {}) 1 = Some (3, 3)"
proof -
  have "draw_unused rnd_repeat (insert 1 {}) 1 = draw_unused rnd_repeat (insert 1 {}) (Suc 1)"
    by (rule draw_unused_redraw) (simp add: randint_def rnd_repeat_def)
  also have "\<dots> = Some (randint rnd_repeat (Suc 1), Suc (Suc 1))"
    by (rule draw_unused_fresh) (simp add: randint_def rnd_repeat_def)
  also have "\<dots> = Some (3, 3)" by (simp add: randint_def rnd_repeat_def)
  finally show ?thesis .
qed

lemma draw_repeat_3: "draw_unused rnd_repeat (insert 3 (insert 1 {})) 3 = Some (4, 4)"
proof -
  have "draw_unused rnd_repeat (insert 3 (insert 1 {})) 3 = Some (randint rnd_repeat 3, Suc 3)"
    by (rule draw_unused_fresh) (simp add: randint_def rnd_repeat_def)
  then show ?thesis by (simp add: randint_def rnd_repeat_def)
qed

lemma picsum_three_eval:
  "search_picsum rnd_repeat [] 3 = Some (map picsum_url [1, 3, 4])"
proof -
  have "search_picsum rnd_repeat [] 3 = picsum_loop rnd_repeat (Suc (Suc (Suc 0))) {} 0 []"
    by (simp add: search_picsum_def numeral_3_eq_3)
  also have "\<dots> = picsum_loop rnd_repeat (Suc (Suc 0)) (insert 1 {}) 1 ([] @ [picsum_url 1])"
    by (rule picsum_loop_step[OF draw_repeat_0])
  also have "\<dots> = picsum_loop rnd_repeat (Suc 0) (insert 3 (insert 1 {})) 3
      (([] @ [picsum_url 1]) @ [picsum_url 3])"
    by (rule picsum_loop_step[OF draw_repeat_1])
  also have "\<dots> = picsum_loop rnd_repeat 0 (insert 4 (insert 3 (insert 1 {}))) 4
      ((([] @ [picsum_url 1]) @ [picsum_url 3]) @ [picsum_url 4])"
    by (rule picsum_loop_step[OF draw_repeat_3])
  also have "\<dots> = Some (map picsum_url [1, 3, 4])" by simp
  finally show ?thesis .
qed

lemma picsum_url_eval:
  "map picsum_url [1, 3, 4] = [''https://picsum.photos/id/1/800/600'',
     ''https://picsum.photos/id/3/800/600'', ''https://picsum.photos/id/4/800/600'']"
  by (simp add: picsum_url_def py_str_nat.simps digit_char_def)

text \<open>
  Claim C8, the amended theorem at three images on \<open>rnd_repeat\<close>: the repeated draw of 1 is
  drawn again.
\<close>

theorem search_picsum_distinct_ids_witness:
  "fair rnd_repeat \<and> (0::int) \<le> 3 \<and> (3::int) \<le> 1000 \<and>
   search_picsum rnd_repeat [] 3 = Some [''https://picsum.photos/id/1/800/600'',
     ''https://picsum.photos/id/3/800/600'', ''https://picsum.photos/id/4/800/600''] \<and>
   (\<exists>ids. search_picsum rnd_repeat [] 3 = Some (map picsum_url ids) \<and>
           int (length ids) = 3 \<and> distinct ids \<and> (\<forall>i \<in> set ids. 1 \<le> i \<and> i \<le> 1000))"
  using search_picsum_distinct_ids [of rnd_repeat 3 "[]"] fair_rnd_repeat
    picsum_three_eval picsum_url_eval
  by simp

subsection \<open>Connection tests\<close>

text \<open>
  Claim C7: for both adapters test\_connection returns false, and does not raise, on every
  expected failure: over REST when the request raises a RequestException or the response has
  a status other than 200, over XML-RPC when the call raises any exception.
\<close>

theorem test_connection_failure_is_false:
  "(get_users_me w (self_api_url rp) = Raises RequestException \<longrightarrow>
      rest_test_connection w rp = Inr False) \<and>
   (\<forall>status_code body. get_users_me w (self_api_url rp) = Reply status_code body \<and>
      status_code \<noteq> 200 \<longrightarrow> rest_test_connection w rp = Inr False) \<and>
   (\<forall>e. call_get_terms w (self_client xp) = Inl e \<longrightarrow> xmlrpc_test_connection w xp = False)"
  by (simp add: rest_test_connection_def xmlrpc_test_connection_def)

text \<open>
  Claim C7 on an unreachable site (both adapters) and on a site that answers 401 over REST.
\<close>

theorem test_connection_failure_is_false_witness:
  "get_users_me unreachable (self_api_url example_rest) = Raises RequestException \<and>
   rest_test_connection unreachable example_rest = Inr False \<and>
   get_users_me rest_unauthorized (self_api_url example_rest) = Reply 401 (Inl OtherException) \<and>
   (401::int) \<noteq> 200 \<and>
   rest_test_connection rest_unauthorized example_rest = Inr False \<and>
   call_get_terms unreachable (self_client example_xmlrpc) = Inl OtherException \<and>
   xmlrpc_test_connection unreachable example_xmlrpc = False"
  using test_connection_failure_is_false [of unreachable example_rest example_xmlrpc]
    test_connection_failure_is_false [of rest_unauthorized example_rest example_xmlrpc]
  by (simp add: unreachable_def rest_unauthorized_def)

subsection \<open>create\_publisher\<close>

lemma create_publisher_returns: "\<exists>result. create_publisher w config = Inr result"
  by (cases "create_publisher_try w config") (simp_all add: create_publisher_def)

lemma create_publisher_auto_eq:
  assumes "truthy (config_get config ''enabled'' (PyBool False))"
    and "config_get config ''api_method'' (PyStr (ascii ''auto'')) = PyStr (ascii ''auto'')"
    and "config ''url'' = Some url" and "config ''username'' = Some username"
    and "config ''password'' = Some password"
    and "category = config_get config ''category'' (PyStr uncategorized)"
    and "status = config_get config ''status'' (PyStr (ascii ''draft''))"
  shows "create_publisher w config = Inr (auto_publisher w url username password category status)"
  using assms by (simp add: create_publisher_def create_publisher_try_def config_item_def Let_def)

lemma auto_failover_cases:
  assumes "truthy (config_get config ''enabled'' (PyBool False))"
    and "config_get config ''api_method'' (PyStr (ascii ''auto'')) = PyStr (ascii ''auto'')"
    and "config ''url'' = Some url" and "config ''username'' = Some username"
    and "config ''password'' = Some password"
    and "category = config_get config ''category'' (PyStr uncategorized)"
    and "status = config_get config ''status'' (PyStr (ascii ''draft''))"
  shows "(\<forall>rp. rest_init url username password category status = Inr rp \<and>
               rest_test_connection w rp = Inr True \<longrightarrow>
             create_publisher w config = Inr (Some (RESTPublisher rp))) \<and>
         (\<forall>xp. (\<forall>rp. rest_init url username password category status = Inr rp \<longrightarrow>
                     rest_test_connection w rp \<noteq> Inr True) \<and>
               xmlrpc_init w url username password category status = Inr xp \<and>
               xmlrpc_test_connection w xp \<longrightarrow>
             create_publisher w config = Inr (Some (XMLRPCPublisher xp))) \<and>
         ((\<forall>rp. rest_init url username password category status = Inr rp \<longrightarrow>
                 rest_test_connection w rp \<noteq> Inr True) \<and>
          (\<forall>xp. xmlrpc_init w url username password category status = Inr xp \<longrightarrow>
                 \<not> xmlrpc_test_connection w xp) \<longrightarrow>
            create_publisher w config = Inr None)"
proof -
  note eq = create_publisher_auto_eq[OF assms, of w]
  define rest_failed where "rest_failed \<longleftrightarrow>
    (\<forall>rp. rest_init url username password category status = Inr rp \<longrightarrow>
          rest_test_connection w rp \<noteq> Inr True)"
  define xmlrpc_failed where "xmlrpc_failed \<longleftrightarrow>
    (\<forall>xp. xmlrpc_init w url username password category status = Inr xp \<longrightarrow>
          \<not> xmlrpc_test_connection w xp)"
  have a: "create_publisher w config = Inr (Some (RESTPublisher rp))"
    if "rest_init url username password category status = Inr rp"
      and "rest_test_connection w rp = Inr True" for rp
    using that by (simp add: eq auto_publisher_def)
  have rest_none: "(case rest_init url username password category status of
               Inl e \<Rightarrow> None
             | Inr publisher \<Rightarrow>
                 (case rest_test_connection w publisher of
                    Inl e \<Rightarrow> None
                  | Inr ok \<Rightarrow> if ok then Some publisher else None)) = None" if rest_failed
  proof (cases "rest_init url username password category status")
    case (Inl e)
    then show ?thesis by simp
  next
    case (Inr rp)
    then have "rest_test_connection w rp \<noteq> Inr True" using that rest_failed_def by simp
    then show ?thesis using Inr by (cases "rest_test_connection w rp") auto
  qed
  have b: "create_publisher w config = Inr (Some (XMLRPCPublisher xp))"
    if rest_failed and "xmlrpc_init w url username password category status = Inr xp"
      and "xmlrpc_test_connection w xp" for xp
    using that(2,3) rest_none[OF that(1)] by (simp add: eq auto_publisher_def)
  have c: "create_publisher w config = Inr None" if rest_failed and xmlrpc_failed
  proof (cases "xmlrpc_init w url username password category status")
    case (Inl e)
    then show ?thesis using rest_none[OF that(1)] by (simp add: eq auto_publisher_def)
  next
    case (Inr xp)
    then have "\<not> xmlrpc_test_connection w xp" using that(2) xmlrpc_failed_def by simp
    then show ?thesis using Inr rest_none[OF that(1)] by (simp add: eq auto_publisher_def)
  qed
  show ?thesis
    unfolding rest_failed_def[symmetric] xmlrpc_failed_def[symmetric]
    using a b c by (intro conjI allI impI) (elim conjE; simp)+
qed

text \<open>
  Claim C1, amended: for every configuration that is enabled, holds url, username and
  password, and has api\_method 'auto' (or none), create\_publisher returns the REST adapter
  when its construction succeeds and its test\_connection returns true; when the REST
  construction raises, or its test\_connection returns false or raises, it returns the XML-RPC
  adapter if that one's construction succeeds and its test\_connection returns true; when both
  branches fail it returns None. For every configuration it returns without an exception.
\<close>

theorem create_publisher_auto_failover:
  "(truthy (config_get config ''enabled'' (PyBool False)) \<and>
    config_get config ''api_method'' (PyStr (ascii ''auto'')) = PyStr (ascii ''auto'') \<and>
    config ''url'' = Some url \<and> config ''username'' = Some username \<and>
    config ''password'' = Some password \<and>
    category = config_get config ''category'' (PyStr uncategorized) \<and>
    status = config_get config ''status'' (PyStr (ascii ''draft'')) \<longrightarrow>
      (\<forall>rp. rest_init url username password category status = Inr rp \<and>
            rest_test_connection w rp = Inr True \<longrightarrow>
          create_publisher w config = Inr (Some (RESTPublisher rp))) \<and>
      (\<forall>xp. (\<forall>rp. rest_init url username password category status = Inr rp \<longrightarrow>
                  rest_test_connection w rp \<noteq> Inr True) \<and>
            xmlrpc_init w url username password category status = Inr xp \<and>
            xmlrpc_test_connection w xp \<longrightarrow>
          create_publisher w config = Inr (Some (XMLRPCPublisher xp))) \<and>
      ((\<forall>rp. rest_init url username password category status = Inr rp \<longrightarrow>
              rest_test_connection w rp \<noteq> Inr True) \<and>
       (\<forall>xp. xmlrpc_init w url username password category status = Inr xp \<longrightarrow>
              \<not> xmlrpc_test_connection w xp) \<longrightarrow>
         create_publisher w config = Inr None)) \<and>
   (\<exists>result. create_publisher w config = Inr result)"
proof (rule conjI)
  show "\<exists>result. create_publisher w config = Inr result"
    by (rule create_publisher_returns)
next
  show "truthy (config_get config ''enabled'' (PyBool False)) \<and>
    config_get config ''api_method'' (PyStr (ascii ''auto'')) = PyStr (ascii ''auto'') \<and>
    config ''url'' = Some url \<and> config ''username'' = Some username \<and>
    config ''password'' = Some password \<and>
    category = config_get config ''category'' (PyStr uncategorized) \<and>
    status = config_get config ''status'' (PyStr (ascii ''draft'')) \<longrightarrow>
      (\<forall>rp. rest_init url username password category status = Inr rp \<and>
            rest_test_connection w rp = Inr True \<longrightarrow>
          create_publisher w config = Inr (Some (RESTPublisher rp))) \<and>
      (\<forall>xp. (\<forall>rp. rest_init url username password category status = Inr rp \<longrightarrow>
                  rest_test_connection w rp \<noteq> Inr True) \<and>
            xmlrpc_init w url username password category status = Inr xp \<and>
            xmlrpc_test_connection w xp \<longrightarrow>
          create_publisher w config = Inr (Some (XMLRPCPublisher xp))) \<and>
      ((\<forall>rp. rest_init url username password category status = Inr rp \<longrightarrow>
              rest_test_connection w rp \<noteq> Inr True) \<and>
       (\<forall>xp. xmlrpc_init w url username password category status = Inr xp \<longrightarrow>
              \<not> xmlrpc_test_connection w xp) \<longrightarrow>
         create_publisher w config = Inr None)"
  proof
    assume h: "truthy (config_get config ''enabled'' (PyBool False)) \<and>
      config_get config ''api_method'' (PyStr (ascii ''auto'')) = PyStr (ascii ''auto'') \<and>
      config ''url'' = Some url \<and> config ''username'' = Some username \<and>
      config ''password'' = Some password \<and>
      category = config_get config ''category'' (PyStr uncategorized) \<and>
      status = config_get config ''status'' (PyStr (ascii ''draft''))"
    then have h1: "truthy (config_get config ''enabled'' (PyBool False))"
      and h2: "config_get config ''api_method'' (PyStr (ascii ''auto'')) = PyStr (ascii ''auto'')"
      and h3: "config ''url'' = Some url" and h4: "config ''username'' = Some username"
      and h5: "config ''password'' = Some password"
      and h6: "category = config_get config ''category'' (PyStr uncategorized)"
      and h7: "status = config_get config ''status'' (PyStr (ascii ''draft''))"
      by simp_all
    show "(\<forall>rp. rest_init url username password category status = Inr rp \<and>
            rest_test_connection w rp = Inr True \<longrightarrow>
          create_publisher w config = Inr (Some (RESTPublisher rp))) \<and>
      (\<forall>xp. (\<forall>rp. rest_init url username password category status = Inr rp \<longrightarrow>
                  rest_test_connection w rp \<noteq> Inr True) \<and>
            xmlrpc_init w url username password category status = Inr xp \<and>
            xmlrpc_test_connection w xp \<longrightarrow>
          create_publisher w config = Inr (Some (XMLRPCPublisher xp))) \<and>
      ((\<forall>rp. rest_init url username password category status = Inr rp \<longrightarrow>
              rest_test_connection w rp \<noteq> Inr True) \<and>
       (\<forall>xp. xmlrpc_init w url username password category status = Inr xp \<longrightarrow>
              \<not> xmlrpc_test_connection w xp) \<longrightarrow>
         create_publisher w config = Inr None)"
      by (rule auto_failover_cases[OF h1 h2 h3 h4 h5 h6 h7])
  qed
qed

lemma example_rest_init:
  "rest_init (PyStr (ascii ''https://blog.example'')) (PyStr (ascii ''admin''))
     (PyStr (ascii ''secret'')) (PyStr uncategorized) (PyStr (ascii ''draft'')) = Inr example_rest"
  by (simp add: rest_init_def example_rest_def ascii_def py_endswith_def has_scheme_def
      py_rstrip_def Let_def)

lemma example_xmlrpc_init:
  "xmlrpc_init rest_unauthorized (PyStr (ascii ''https://blog.example'')) (PyStr (ascii ''admin''))
     (PyStr (ascii ''secret'')) (PyStr uncategorized) (PyStr (ascii ''draft'')) = Inr example_xmlrpc"
  by (simp add: xmlrpc_init_def example_xmlrpc_def ascii_def has_scheme_def
      rest_unauthorized_def unreachable_def Let_def)

text \<open>
  Claim C1, as stated, speaks of every configuration with api\_method 'auto'. A configuration
  in auto mode without the key \<^verbatim>\<open>enabled\<close> gets no publisher, although the REST adapter
  can be built and its test\_connection returns true.
\<close>

theorem create_publisher_disabled_not_tried:
  "config_auto ''api_method'' = Some (PyStr (ascii ''auto'')) \<and>
   rest_init (PyStr (ascii ''https://blog.example'')) (PyStr (ascii ''admin''))
     (PyStr (ascii ''secret'')) (PyStr uncategorized) (PyStr (ascii ''draft'')) = Inr example_rest \<and>
   rest_test_connection rest_healthy example_rest = Inr True \<and>
   create_publisher rest_healthy config_auto = Inr None"
proof -
  have "config_auto ''api_method'' = Some (PyStr (ascii ''auto''))"
    by (simp add: config_auto_def)
  moreover have "rest_test_connection rest_healthy example_rest = Inr True"
    by (simp add: rest_test_connection_def rest_healthy_def unreachable_def)
  moreover have "create_publisher rest_healthy config_auto = Inr None"
    by (simp add: create_publisher_def create_publisher_try_def config_get_def config_auto_def)
  ultimately show ?thesis using example_rest_init by simp
qed

text \<open>
  Claim C1, the amended theorem on the enabled configuration and a site that answers 401 over
  REST and accepts the XML-RPC call: the XML-RPC adapter is returned.
\<close>

theorem create_publisher_auto_failover_witness:
  "truthy (config_get config_auto_enabled ''enabled'' (PyBool False)) \<and>
   config_get config_auto_enabled ''api_method'' (PyStr (ascii ''auto'')) = PyStr (ascii ''auto'') \<and>
   config_auto_enabled ''url'' = Some (PyStr (ascii ''https://blog.example'')) \<and>
   config_auto_enabled ''username'' = Some (PyStr (ascii ''admin'')) \<and>
   config_auto_enabled ''password'' = Some (PyStr (ascii ''secret'')) \<and>
   rest_init (PyStr (ascii ''https://blog.example'')) (PyStr (ascii ''admin''))
     (PyStr (ascii ''secret'')) (PyStr uncategorized) (PyStr (ascii ''draft'')) = Inr example_rest \<and>
   rest_test_connection rest_unauthorized example_rest = Inr False \<and>
   xmlrpc_init rest_unauthorized (PyStr (ascii ''https://blog.example'')) (PyStr (ascii ''admin''))
     (PyStr (ascii ''secret'')) (PyStr uncategorized) (PyStr (ascii ''draft'')) = Inr example_xmlrpc \<and>
   xmlrpc_test_connection rest_unauthorized example_xmlrpc \<and>
   create_publisher rest_unauthorized config_auto_enabled = Inr (Some (XMLRPCPublisher example_xmlrpc))"
proof -
  have h1: "truthy (config_get config_auto_enabled ''enabled'' (PyBool False))"
    by (simp add: config_get_def config_auto_enabled_def)
  have h2: "config_get config_auto_enabled ''api_method'' (PyStr (ascii ''auto'')) = PyStr (ascii ''auto'')"
    by (simp add: config_get_def config_auto_enabled_def config_auto_def)
  have h3: "config_auto_enabled ''url'' = Some (PyStr (ascii ''https://blog.example''))"
    and h4: "config_auto_enabled ''username'' = Some (PyStr (ascii ''admin''))"
    and h5: "config_auto_enabled ''password'' = Some (PyStr (ascii ''secret''))"
    by (simp_all add: config_auto_enabled_def config_auto_def)
  have h6: "PyStr uncategorized = config_get config_auto_enabled ''category'' (PyStr uncategorized)"
    and h7: "PyStr (ascii ''draft'') = config_get config_auto_enabled ''status'' (PyStr (ascii ''draft''))"
    by (simp_all add: config_get_def config_auto_enabled_def config_auto_def)
  have t1: "rest_test_connection rest_unauthorized example_rest = Inr False"
    by (simp add: rest_test_connection_def rest_unauthorized_def unreachable_def)
  have t2: "xmlrpc_test_connection rest_unauthorized example_xmlrpc"
    by (simp add: xmlrpc_test_connection_def rest_unauthorized_def unreachable_def)
  from create_publisher_auto_failover [of config_auto_enabled
      "PyStr (ascii ''https://blog.example'')" "PyStr (ascii ''admin'')" "PyStr (ascii ''secret'')"
      "PyStr uncategorized" "PyStr (ascii ''draft'')" rest_unauthorized] h1 h2 h3 h4 h5 h6 h7
  have "create_publisher rest_unauthorized config_auto_enabled = Inr (Some (XMLRPCPublisher example_xmlrpc))"
    using example_rest_init example_xmlrpc_init t1 t2 by simp
  then show ?thesis using h1 h2 h3 h4 h5 example_rest_init example_xmlrpc_init t1 t2 by simp
qed

subsection \<open>URL normalisation\<close>

lemma py_rstrip_no_trailing:
  "\<not> py_endswith (py_rstrip [c] s) [c]"
proof -
  define d where "d = dropWhile (\<lambda>x. x \<in> set [c]) (rev s)"
  have e: "py_endswith (py_rstrip [c] s) [c] = py_startswith d [c]"
    by (simp add: py_endswith_def py_rstrip_def d_def)
  have "\<not> py_startswith d [c]"
  proof (cases d)
    case Nil
    then show ?thesis by simp
  next
    case (Cons x xs)
    then have "d \<noteq> []" by simp
    then have "\<not> (hd d \<in> set [c])" unfolding d_def by (rule hd_dropWhile)
    then show ?thesis using Cons by simp
  qed
  then show ?thesis using e by simp
qed

lemma ascii_slash: "ascii ''/'' = [47]"
  by (simp add: ascii_def)

text \<open>
  Claim C3, as stated, has both adapters remove the endpoint suffix and the trailing slash.
  The XML-RPC adapter is built for the endpoint URL and keeps it as it is.
\<close>

theorem xmlrpc_init_keeps_endpoint_suffix:
  "xmlrpc_init rest_unauthorized (PyStr (ascii ''https://blog.example/xmlrpc.php''))
     (PyStr (ascii ''admin'')) (PyStr (ascii ''secret'')) (PyStr uncategorized)
     (PyStr (ascii ''draft'')) =
   Inr (example_xmlrpc\<lparr>self_url := PyStr (ascii ''https://blog.example/xmlrpc.php''),
                        self_client := ascii ''https://blog.example/xmlrpc.php''\<rparr>) \<and>
   py_endswith (ascii ''https://blog.example/xmlrpc.php'') (ascii ''/xmlrpc.php'')"
  by (simp add: xmlrpc_init_def example_xmlrpc_def ascii_def has_scheme_def py_endswith_def
      rest_unauthorized_def unreachable_def Let_def)

text \<open>
  The REST adapter on a URL that ends with the endpoint suffix: twelve characters are cut
  where the suffix has eleven, so the last character of the host goes too.
\<close>

lemma rest_init_cuts_twelve:
  "rest_init (PyStr (ascii ''https://yourblog.com/xmlrpc.php'')) (PyStr (ascii ''admin''))
     (PyStr (ascii ''secret'')) (PyStr uncategorized) (PyStr (ascii ''draft'')) =
   Inr (example_rest\<lparr>self_url := PyStr (ascii ''https://yourblog.com/xmlrpc.php''),
                      self_base_url := ascii ''https://yourblog.co'',
                      self_api_url := ascii ''https://yourblog.co/wp-json/wp/v2''\<rparr>) \<and>
   length (ascii ''/xmlrpc.php'') = 11"
  by (simp add: rest_init_def example_rest_def ascii_def py_endswith_def has_scheme_def
      py_rstrip_def py_slice_to_def Let_def)

text \<open>
  Claim C3, amended: for every URL string that does not end with '/xmlrpc.php', the REST
  adapter's base URL is the URL, prefixed with 'https://' unless it starts with 'http://' or
  'https://', without its trailing slashes, and the API root is that base URL followed by
  '/wp-json/wp/v2'; for every URL string the REST base URL has no trailing slash. The
  XML-RPC adapter only prefixes 'https://' to a URL without scheme and keeps the rest of the
  URL, a trailing slash and the suffix '/xmlrpc.php' included.
\<close>

theorem url_normalisation:
  "(\<not> py_endswith u (ascii ''/xmlrpc.php'') \<longrightarrow>
      (\<exists>rp. rest_init (PyStr u) username password category status = Inr rp \<and>
            self_base_url rp =
              py_rstrip (ascii ''/'') (if has_scheme u then u else ascii ''https://'' @ u) \<and>
            self_api_url rp = self_base_url rp @ ascii ''/wp-json/wp/v2'')) \<and>
   (\<forall>rp. rest_init (PyStr u) username password category status = Inr rp \<longrightarrow>
      \<not> py_endswith (self_base_url rp) (ascii ''/'')) \<and>
   (\<forall>xp. xmlrpc_init w (PyStr u) username password category status = Inr xp \<longrightarrow>
      self_client xp = (if has_scheme u then u else ascii ''https://'' @ u) \<and>
      self_url xp = PyStr (self_client xp))"
proof (intro conjI allI impI)
  assume "\<not> py_endswith u (ascii ''/xmlrpc.php'')"
  then show "\<exists>rp. rest_init (PyStr u) username password category status = Inr rp \<and>
            self_base_url rp =
              py_rstrip (ascii ''/'') (if has_scheme u then u else ascii ''https://'' @ u) \<and>
            self_api_url rp = self_base_url rp @ ascii ''/wp-json/wp/v2''"
    by (simp add: rest_init_def Let_def)
next
  fix rp
  assume "rest_init (PyStr u) username password category status = Inr rp"
  then obtain v where "self_base_url rp = py_rstrip (ascii ''/'') v"
    by (auto simp: rest_init_def Let_def)
  then show "\<not> py_endswith (self_base_url rp) (ascii ''/'')"
    using py_rstrip_no_trailing[of 47 v] by (simp add: ascii_slash)
next
  fix xp
  assume x: "xmlrpc_init w (PyStr u) username password category status = Inr xp"
  then show "self_client xp = (if has_scheme u then u else ascii ''https://'' @ u)"
    by (auto simp: xmlrpc_init_def Let_def split: if_splits option.splits)
  from x show "self_url xp = PyStr (self_client xp)"
    by (auto simp: xmlrpc_init_def Let_def split: if_splits option.splits)
qed

text \<open>
  Claim C3, the amended theorem on \<^verbatim>\<open>blog.example//\<close> for the REST adapter and on
  \<^verbatim>\<open>blog.example/\<close> for the XML-RPC adapter.
\<close>

theorem url_normalisation_witness:
  "\<not> py_endswith (ascii ''blog.example//'') (ascii ''/xmlrpc.php'') \<and>
   rest_init (PyStr (ascii ''blog.example//'')) (PyStr (ascii ''admin''))
     (PyStr (ascii ''secret'')) (PyStr uncategorized) (PyStr (ascii ''draft'')) =
     Inr (example_rest\<lparr>self_url := PyStr (ascii ''blog.example//'')\<rparr>) \<and>
   self_base_url example_rest = ascii ''https://blog.example'' \<and>
   \<not> py_endswith (self_base_url example_rest) (ascii ''/'') \<and>
   xmlrpc_init rest_unauthorized (PyStr (ascii ''blog.example/'')) (PyStr (ascii ''admin''))
     (PyStr (ascii ''secret'')) (PyStr uncategorized) (PyStr (ascii ''draft'')) =
     Inr (example_xmlrpc\<lparr>self_url := PyStr (ascii ''https://blog.example/''),
                          self_client := ascii ''https://blog.example/''\<rparr>)"
proof -
  have r: "rest_init (PyStr (ascii ''blog.example//'')) (PyStr (ascii ''admin''))
     (PyStr (ascii ''secret'')) (PyStr uncategorized) (PyStr (ascii ''draft'')) =
     Inr (example_rest\<lparr>self_url := PyStr (ascii ''blog.example//'')\<rparr>)"
    by (simp add: rest_init_def example_rest_def ascii_def py_endswith_def has_scheme_def
        py_rstrip_def py_slice_to_def Let_def)
  have x: "xmlrpc_init rest_unauthorized (PyStr (ascii ''blog.example/'')) (PyStr (ascii ''admin''))
     (PyStr (ascii ''secret'')) (PyStr uncategorized) (PyStr (ascii ''draft'')) =
     Inr (example_xmlrpc\<lparr>self_url := PyStr (ascii ''https://blog.example/''),
                          self_client := ascii ''https://blog.example/''\<rparr>)"
    by (simp add: xmlrpc_init_def example_xmlrpc_def ascii_def has_scheme_def
        rest_unauthorized_def unreachable_def Let_def)
  have n: "\<not> py_endswith (ascii ''blog.example//'') (ascii ''/xmlrpc.php'')"
    by (simp add: ascii_def py_endswith_def)
  have b: "self_base_url example_rest = ascii ''https://blog.example''"
    by (simp add: example_rest_def)
  from url_normalisation [of "ascii ''blog.example//''" "PyStr (ascii ''admin'')"
      "PyStr (ascii ''secret'')" "PyStr uncategorized" "PyStr (ascii ''draft'')" rest_unauthorized]
  have "\<not> py_endswith (self_base_url example_rest) (ascii ''/'')"
    using r by simp
  then show ?thesis using r x n b by simp
qed

subsection \<open>Random category fallback\<close>

lemma py_choice_mem: "xs \<noteq> [] \<Longrightarrow> py_choice pick xs \<in> set xs"
  by (simp add: py_choice_def)

lemma py_choice_any:
  assumes "x \<in> set xs"
  shows "\<exists>pick. py_choice pick xs = x"
proof -
  from assms obtain i where "i < length xs" "xs ! i = x" by (auto simp: in_set_conv_nth)
  then have "py_choice i xs = x" by (simp add: py_choice_def)
  then show ?thesis by blast
qed

lemma choice_valid_mem:
  assumes "\<exists>c \<in> set cats. P c"
  shows "py_choice pick (if filter P cats = [] then cats else filter P cats) \<in> {c \<in> set cats. P c}"
proof -
  have ne: "filter P cats \<noteq> []" using assms by (auto simp: filter_empty_conv)
  then have "py_choice pick (filter P cats) \<in> set (filter P cats)" by (rule py_choice_mem)
  then show ?thesis using ne by simp
qed

lemma choice_valid_any:
  assumes "c \<in> set cats" "P c"
  shows "\<exists>pick. py_choice pick (if filter P cats = [] then cats else filter P cats) = c"
proof -
  have m: "c \<in> set (filter P cats)" using assms by simp
  then have ne: "filter P cats \<noteq> []" by (cases "filter P cats") simp_all
  from py_choice_any[OF m] show ?thesis using ne by simp
qed

lemma choice_valid_reserved:
  assumes "cats \<noteq> []" "\<not> P (py_choice pick (if filter P cats = [] then cats else filter P cats))"
  shows "\<forall>c \<in> set cats. \<not> P c"
proof (rule ccontr)
  assume "\<not> (\<forall>c \<in> set cats. \<not> P c)"
  then have "\<exists>c \<in> set cats. P c" by blast
  from choice_valid_mem[OF this, of pick] show False using assms(2) by simp
qed

lemma rest_get_all_categories_ok:
  "get_categories w (self_api_url rp) = Reply 200 (Inr cats) \<Longrightarrow>
   rest_get_all_categories w rp = cats"
  by (simp add: rest_get_all_categories_def)

lemma rest_random_eq:
  assumes "get_categories w (self_api_url rp) = Reply 200 (Inr cats)" "cats \<noteq> []"
  shows "rest_get_random_category_id w rp pick =
    Some (term_id (py_choice pick
      (if filter (\<lambda>cat. term_id cat \<noteq> 1) cats = [] then cats
       else filter (\<lambda>cat. term_id cat \<noteq> 1) cats)))"
  using assms by (simp add: rest_get_random_category_id_def rest_get_all_categories_ok Let_def)

lemma xmlrpc_random_eq:
  assumes "call_get_terms w (self_client xp) = Inr cats" "cats \<noteq> []"
  shows "xmlrpc_get_random_category w xp pick =
    (let c = py_choice pick
      (if filter (\<lambda>cat. term_id cat \<noteq> 1) cats = [] then cats
       else filter (\<lambda>cat. term_id cat \<noteq> 1) cats)
     in Some (term_name c, term_id c))"
  using assms
  by (simp add: xmlrpc_get_random_category_def xmlrpc_get_all_categories_def Let_def)

lemma first_named_none:
  "(\<forall>c \<in> set cats. PyStr (term_name c) \<noteq> name) \<Longrightarrow> first_named name cats = None"
  by (induction cats) auto


lemma rest_fallback:
  assumes "\<not> truthy (py_or category (self_default_category rp)) \<or>
           \<not> truthy_id (rest_get_category_id w rp (py_or category (self_default_category rp)))"
  shows "rest_category_id w rp pick category = rest_get_random_category_id w rp pick"
  using assms by (auto simp: rest_category_id_def Let_def)

lemma rest_lookup_not_found:
  assumes "\<forall>found. search_categories w (self_api_url rp) name = Reply 200 (Inr found) \<longrightarrow>
             (\<forall>c \<in> set found. PyStr (term_name c) \<noteq> name)"
  shows "rest_get_category_id w rp name = None"
proof (cases "search_categories w (self_api_url rp) name")
  case (Raises e)
  then show ?thesis by (simp add: rest_get_category_id_def)
next
  case (Reply st body)
  show ?thesis
  proof (cases "st = 200")
    case False
    then show ?thesis using Reply by (simp add: rest_get_category_id_def)
  next
    case True
    show ?thesis
    proof (cases body)
      case (Inl e)
      then show ?thesis using Reply True by (simp add: rest_get_category_id_def)
    next
      case (Inr found)
      then have "\<forall>c \<in> set found. PyStr (term_name c) \<noteq> name" using assms Reply True by simp
      then have "first_named name found = None" by (rule first_named_none)
      then show ?thesis using Reply True Inr by (simp add: rest_get_category_id_def)
    qed
  qed
qed

lemma xmlrpc_fallback:
  assumes "\<not> truthy (py_or category (self_default_category xp)) \<or>
           \<not> truthy_id (xmlrpc_get_category_id w xp (py_or category (self_default_category xp)))"
  shows "xmlrpc_selected_category w xp pick category =
    (case xmlrpc_get_random_category w xp pick of
       None \<Rightarrow> (PyNone, None)
     | Some random_cat \<Rightarrow> (PyStr (fst random_cat), Some (snd random_cat)))"
  using assms by (auto simp: xmlrpc_selected_category_def Let_def)


lemma rest_random_not_reserved:
  assumes "get_categories w (self_api_url rp) = Reply 200 (Inr cats)"
    and "\<exists>c \<in> set cats. term_id c \<noteq> 1"
  shows "\<exists>c \<in> set cats. term_id c \<noteq> 1 \<and>
           rest_get_random_category_id w rp pick = Some (term_id c)"
proof -
  have ne: "cats \<noteq> []" using assms(2) by auto
  let ?c = "py_choice pick
      (if filter (\<lambda>cat. term_id cat \<noteq> 1) cats = [] then cats
       else filter (\<lambda>cat. term_id cat \<noteq> 1) cats)"
  from choice_valid_mem[OF assms(2), of pick] have "?c \<in> set cats" "term_id ?c \<noteq> 1"
    by simp_all
  then show ?thesis using rest_random_eq[OF assms(1) ne, of pick] by (intro bexI[of _ ?c]) simp_all
qed

lemma rest_random_every:
  assumes "get_categories w (self_api_url rp) = Reply 200 (Inr cats)"
    and "c \<in> set cats" "term_id c \<noteq> 1"
  shows "\<exists>pick. rest_get_random_category_id w rp pick = Some (term_id c)"
proof -
  have ne: "cats \<noteq> []" using assms(2) by auto
  from choice_valid_any[of c cats "\<lambda>cat. term_id cat \<noteq> 1", OF assms(2,3)]
  obtain pick where "py_choice pick
      (if filter (\<lambda>cat. term_id cat \<noteq> 1) cats = [] then cats
       else filter (\<lambda>cat. term_id cat \<noteq> 1) cats) = c" by blast
  then have "rest_get_random_category_id w rp pick = Some (term_id c)"
    using rest_random_eq[OF assms(1) ne, of pick] by simp
  then show ?thesis by blast
qed

lemma rest_random_reserved_only:
  assumes "get_categories w (self_api_url rp) = Reply 200 (Inr cats)"
    and "rest_get_random_category_id w rp pick = Some 1"
  shows "\<forall>c \<in> set cats. term_id c = 1"
proof (cases "cats = []")
  case True
  then show ?thesis by simp
next
  case False
  from rest_random_eq[OF assms(1) False, of pick] assms(2)
  have "\<not> term_id (py_choice pick
      (if filter (\<lambda>cat. term_id cat \<noteq> 1) cats = [] then cats
       else filter (\<lambda>cat. term_id cat \<noteq> 1) cats)) \<noteq> 1" by simp
  from choice_valid_reserved[of cats "\<lambda>cat. term_id cat \<noteq> 1", OF False this]
  show ?thesis by simp
qed

lemma rest_post_categories:
  "pd_categories (rest_post_data w rp pick title content category status tags excerpt) =
     (case rest_category_id w rp pick category of
        None \<Rightarrow> None
      | Some i \<Rightarrow> if i \<noteq> 0 then Some [i] else None)"
  by (simp add: rest_post_data_def Let_def)

lemma rest_publish_fallback:
  assumes "get_categories w (self_api_url rp) = Reply 200 (Inr cats)"
    and "\<exists>c \<in> set cats. term_id c \<noteq> 1"
    and "name = py_or category (self_default_category rp)"
    and "\<not> truthy name \<or>
         (\<forall>found. search_categories w (self_api_url rp) name = Reply 200 (Inr found) \<longrightarrow>
            (\<forall>c \<in> set found. PyStr (term_name c) \<noteq> name))"
  shows "\<exists>c \<in> set cats. term_id c \<noteq> 1 \<and>
           rest_category_id w rp pick category = Some (term_id c) \<and>
           pd_categories (rest_post_data w rp pick title content category status tags excerpt)
             \<noteq> Some [1]"
proof -
  have "\<not> truthy name \<or> \<not> truthy_id (rest_get_category_id w rp name)"
    using assms(4) rest_lookup_not_found[of w rp name] by auto
  then have f: "rest_category_id w rp pick category = rest_get_random_category_id w rp pick"
    unfolding assms(3) by (rule rest_fallback)
  from rest_random_not_reserved[OF assms(1,2), of pick] obtain c where
    c: "c \<in> set cats" "term_id c \<noteq> 1" "rest_get_random_category_id w rp pick = Some (term_id c)"
    by blast
  have "pd_categories (rest_post_data w rp pick title content category status tags excerpt)
             \<noteq> Some [1]"
    using c(2,3) f by (simp add: rest_post_categories)
  then show ?thesis using c f by (intro bexI[of _ c]) simp_all
qed

lemma xmlrpc_random_not_reserved:
  assumes "call_get_terms w (self_client xp) = Inr cats"
    and "\<exists>c \<in> set cats. term_id c \<noteq> 1"
  shows "\<exists>c \<in> set cats. term_id c \<noteq> 1 \<and>
           xmlrpc_get_random_category w xp pick = Some (term_name c, term_id c)"
proof -
  have ne: "cats \<noteq> []" using assms(2) by auto
  let ?c = "py_choice pick
      (if filter (\<lambda>cat. term_id cat \<noteq> 1) cats = [] then cats
       else filter (\<lambda>cat. term_id cat \<noteq> 1) cats)"
  from choice_valid_mem[OF assms(2), of pick] have "?c \<in> set cats" "term_id ?c \<noteq> 1"
    by simp_all
  then show ?thesis using xmlrpc_random_eq[OF assms(1) ne, of pick]
    by (intro bexI[of _ ?c]) (simp_all add: Let_def)
qed

lemma xmlrpc_random_every:
  assumes "call_get_terms w (self_client xp) = Inr cats"
    and "c \<in> set cats" "term_id c \<noteq> 1"
  shows "\<exists>pick. xmlrpc_get_random_category w xp pick = Some (term_name c, term_id c)"
proof -
  have ne: "cats \<noteq> []" using assms(2) by auto
  from choice_valid_any[of c cats "\<lambda>cat. term_id cat \<noteq> 1", OF assms(2,3)]
  obtain pick where "py_choice pick
      (if filter (\<lambda>cat. term_id cat \<noteq> 1) cats = [] then cats
       else filter (\<lambda>cat. term_id cat \<noteq> 1) cats) = c" by blast
  then have "xmlrpc_get_random_category w xp pick = Some (term_name c, term_id c)"
    using xmlrpc_random_eq[OF assms(1) ne, of pick] by (simp add: Let_def)
  then show ?thesis by blast
qed

lemma xmlrpc_random_reserved_only:
  assumes "call_get_terms w (self_client xp) = Inr cats"
    and "xmlrpc_get_random_category w xp pick = Some (n, 1)"
  shows "\<forall>c \<in> set cats. term_id c = 1"
proof (cases "cats = []")
  case True
  then show ?thesis by simp
next
  case False
  from xmlrpc_random_eq[OF assms(1) False, of pick] assms(2)
  have "\<not> term_id (py_choice pick
      (if filter (\<lambda>cat. term_id cat \<noteq> 1) cats = [] then cats
       else filter (\<lambda>cat. term_id cat \<noteq> 1) cats)) \<noteq> 1" by (simp add: Let_def)
  from choice_valid_reserved[of cats "\<lambda>cat. term_id cat \<noteq> 1", OF False this]
  show ?thesis by simp
qed

lemma xmlrpc_publish_fallback:
  assumes "call_get_terms w (self_client xp) = Inr cats"
    and "\<exists>c \<in> set cats. term_id c \<noteq> 1"
    and "name = py_or category (self_default_category xp)"
    and "\<not> truthy name \<or> (\<forall>c \<in> set cats. PyStr (term_name c) \<noteq> name)"
  shows "\<exists>c \<in> set cats. term_id c \<noteq> 1 \<and>
           xmlrpc_selected_category w xp pick category = (PyStr (term_name c), Some (term_id c))"
proof -
  have "\<not> truthy name \<or> xmlrpc_get_category_id w xp name = None"
    using assms(1,4) first_named_none[of cats name] by (auto simp: xmlrpc_get_category_id_def)
  then have "\<not> truthy name \<or> \<not> truthy_id (xmlrpc_get_category_id w xp name)" by auto
  then have f: "xmlrpc_selected_category w xp pick category =
    (case xmlrpc_get_random_category w xp pick of
       None \<Rightarrow> (PyNone, None)
     | Some random_cat \<Rightarrow> (PyStr (fst random_cat), Some (snd random_cat)))"
    unfolding assms(3) by (rule xmlrpc_fallback)
  from xmlrpc_random_not_reserved[OF assms(1,2), of pick] obtain c where
    c: "c \<in> set cats" "term_id c \<noteq> 1"
      "xmlrpc_get_random_category w xp pick = Some (term_name c, term_id c)" by blast
  then show ?thesis using f by (intro bexI[of _ c]) simp_all
qed

text \<open>
  Claim C2: when the remote category set has a category whose id is not the reserved id 1,
  the random fallback of both adapters selects a category of the set whose id is not 1, every
  such category can be selected, and the reserved id is selected only when every category of
  the set has it; publish\_post uses the fallback when no name is given (neither as argument
  nor as default) or the name's lookup finds no category of that name, and then the post
  carries a non-reserved category.
\<close>

theorem random_category_fallback:
  assumes "rname = py_or category (self_default_category rp)"
    and "xname = py_or category (self_default_category xp)"
  shows
   "(get_categories w (self_api_url rp) = Reply 200 (Inr cats) \<longrightarrow>
       ((\<exists>c \<in> set cats. term_id c \<noteq> 1) \<longrightarrow>
          (\<exists>c \<in> set cats. term_id c \<noteq> 1 \<and>
             rest_get_random_category_id w rp pick = Some (term_id c))) \<and>
       (\<forall>c \<in> set cats. term_id c \<noteq> 1 \<longrightarrow>
          (\<exists>pick'. rest_get_random_category_id w rp pick' = Some (term_id c))) \<and>
       (rest_get_random_category_id w rp pick = Some 1 \<longrightarrow> (\<forall>c \<in> set cats. term_id c = 1)) \<and>
       ((\<exists>c \<in> set cats. term_id c \<noteq> 1) \<and>
        (\<not> truthy rname \<or>
         (\<forall>found. search_categories w (self_api_url rp) rname = Reply 200 (Inr found) \<longrightarrow>
            (\<forall>c \<in> set found. PyStr (term_name c) \<noteq> rname))) \<longrightarrow>
          (\<exists>c \<in> set cats. term_id c \<noteq> 1 \<and>
             rest_category_id w rp pick category = Some (term_id c) \<and>
             pd_categories (rest_post_data w rp pick title content category status tags excerpt)
               \<noteq> Some [1]))) \<and>
    (call_get_terms w (self_client xp) = Inr cats \<longrightarrow>
       ((\<exists>c \<in> set cats. term_id c \<noteq> 1) \<longrightarrow>
          (\<exists>c \<in> set cats. term_id c \<noteq> 1 \<and>
             xmlrpc_get_random_category w xp pick = Some (term_name c, term_id c))) \<and>
       (\<forall>c \<in> set cats. term_id c \<noteq> 1 \<longrightarrow>
          (\<exists>pick'. xmlrpc_get_random_category w xp pick' = Some (term_name c, term_id c))) \<and>
       (\<forall>n. xmlrpc_get_random_category w xp pick = Some (n, 1) \<longrightarrow>
          (\<forall>c \<in> set cats. term_id c = 1)) \<and>
       ((\<exists>c \<in> set cats. term_id c \<noteq> 1) \<and>
        (\<not> truthy xname \<or> (\<forall>c \<in> set cats. PyStr (term_name c) \<noteq> xname)) \<longrightarrow>
          (\<exists>c \<in> set cats. term_id c \<noteq> 1 \<and>
             xmlrpc_selected_category w xp pick category =
               (PyStr (term_name c), Some (term_id c)))))"
proof (intro conjI impI ballI allI)
  assume r: "get_categories w (self_api_url rp) = Reply 200 (Inr cats)"
  {
    assume "\<exists>c \<in> set cats. term_id c \<noteq> 1"
    then show "\<exists>c \<in> set cats. term_id c \<noteq> 1 \<and>
        rest_get_random_category_id w rp pick = Some (term_id c)"
      by (rule rest_random_not_reserved[OF r])
  }
  {
    fix c assume "c \<in> set cats" "term_id c \<noteq> 1"
    then show "\<exists>pick'. rest_get_random_category_id w rp pick' = Some (term_id c)"
      by (rule rest_random_every[OF r])
  }
  {
    fix c assume "rest_get_random_category_id w rp pick = Some 1" "c \<in> set cats"
    then show "term_id c = 1" using rest_random_reserved_only[OF r] by blast
  }
  {
    assume h: "(\<exists>c \<in> set cats. term_id c \<noteq> 1) \<and>
        (\<not> truthy rname \<or>
         (\<forall>found. search_categories w (self_api_url rp) rname = Reply 200 (Inr found) \<longrightarrow>
            (\<forall>c \<in> set found. PyStr (term_name c) \<noteq> rname)))"
    show "\<exists>c \<in> set cats. term_id c \<noteq> 1 \<and>
             rest_category_id w rp pick category = Some (term_id c) \<and>
             pd_categories (rest_post_data w rp pick title content category status tags excerpt)
               \<noteq> Some [1]"
      by (rule rest_publish_fallback[OF r conjunct1[OF h] assms(1) conjunct2[OF h]])
  }
next
  assume x: "call_get_terms w (self_client xp) = Inr cats"
  {
    assume "\<exists>c \<in> set cats. term_id c \<noteq> 1"
    then show "\<exists>c \<in> set cats. term_id c \<noteq> 1 \<and>
        xmlrpc_get_random_category w xp pick = Some (term_name c, term_id c)"
      by (rule xmlrpc_random_not_reserved[OF x])
  }
  {
    fix c assume "c \<in> set cats" "term_id c \<noteq> 1"
    then show "\<exists>pick'. xmlrpc_get_random_category w xp pick' = Some (term_name c, term_id c)"
      by (rule xmlrpc_random_every[OF x])
  }
  {
    fix n c assume "xmlrpc_get_random_category w xp pick = Some (n, 1)" "c \<in> set cats"
    then show "term_id c = 1" using xmlrpc_random_reserved_only[OF x] by blast
  }
  {
    assume h: "(\<exists>c \<in> set cats. term_id c \<noteq> 1) \<and>
        (\<not> truthy xname \<or> (\<forall>c \<in> set cats. PyStr (term_name c) \<noteq> xname))"
    show "\<exists>c \<in> set cats. term_id c \<noteq> 1 \<and>
             xmlrpc_selected_category w xp pick category =
               (PyStr (term_name c), Some (term_id c))"
      by (rule xmlrpc_publish_fallback[OF x conjunct1[OF h] assms(2) conjunct2[OF h]])
  }
qed


lemmas blog_defs = blog_def rest_healthy_def unreachable_def three_categories_def
  example_rest_def example_xmlrpc_def uncategorized_def ascii_def

text \<open>
  Claim C2 on the site \<open>blog\<close>, with the category \<^verbatim>\<open>Nope\<close> requested, which the site
  does not have, and the draw 1: the category with id 7 is chosen.
\<close>

theorem random_category_fallback_witness:
  "get_categories blog (self_api_url example_rest) = Reply 200 (Inr three_categories) \<and>
   call_get_terms blog (self_client example_xmlrpc) = Inr three_categories \<and>
   (\<exists>c \<in> set three_categories. term_id c \<noteq> 1) \<and>
   py_or (PyStr (ascii ''Nope'')) (self_default_category example_rest) = PyStr (ascii ''Nope'') \<and>
   rest_get_category_id blog example_rest (PyStr (ascii ''Nope'')) = None \<and>
   rest_get_random_category_id blog example_rest 1 = Some 7 \<and>
   rest_category_id blog example_rest 1 (PyStr (ascii ''Nope'')) = Some 7 \<and>
   pd_categories (rest_post_data blog example_rest 1 (ascii ''t'') (ascii ''c'')
      (PyStr (ascii ''Nope'')) PyNone None PyNone) \<noteq> Some [1] \<and>
   xmlrpc_selected_category blog example_xmlrpc 1 (PyStr (ascii ''Nope'')) =
     (PyStr (ascii ''Tech''), Some 7)"
proof -
  have g: "get_categories blog (self_api_url example_rest) = Reply 200 (Inr three_categories)"
    by (simp add: blog_def rest_healthy_def unreachable_def)
  have t: "call_get_terms blog (self_client example_xmlrpc) = Inr three_categories"
    by (simp add: blog_def rest_healthy_def unreachable_def)
  have e: "\<exists>c \<in> set three_categories. term_id c \<noteq> 1"
    by (simp add: three_categories_def)
  have n: "py_or (PyStr (ascii ''Nope'')) (self_default_category example_rest) = PyStr (ascii ''Nope'')"
    "py_or (PyStr (ascii ''Nope'')) (self_default_category example_xmlrpc) = PyStr (ascii ''Nope'')"
    by (simp_all add: py_or_def ascii_def)
  have l: "rest_get_category_id blog example_rest (PyStr (ascii ''Nope'')) = None"
    by (simp add: rest_get_category_id_def blog_defs)
  have r: "rest_get_random_category_id blog example_rest 1 = Some 7"
    by (simp add: rest_get_random_category_id_def rest_get_all_categories_def py_choice_def
        blog_defs Let_def)
  have c: "rest_category_id blog example_rest 1 (PyStr (ascii ''Nope'')) = Some 7"
    using l r n(1) by (simp add: rest_category_id_def Let_def)
  have x: "xmlrpc_selected_category blog example_xmlrpc 1 (PyStr (ascii ''Nope'')) =
     (PyStr (ascii ''Tech''), Some 7)"
    by (simp add: xmlrpc_selected_category_def xmlrpc_get_category_id_def
        xmlrpc_get_random_category_def xmlrpc_get_all_categories_def py_choice_def py_or_def
        blog_defs Let_def)
  have nf: "\<forall>found. search_categories blog (self_api_url example_rest) (PyStr (ascii ''Nope'')) =
      Reply 200 (Inr found) \<longrightarrow> (\<forall>c \<in> set found. PyStr (term_name c) \<noteq> PyStr (ascii ''Nope''))"
    by (auto simp: blog_defs)
  from random_category_fallback [OF n(1)[symmetric] n(2)[symmetric], of blog three_categories 1
      "ascii ''t''" "ascii ''c''" PyNone None PyNone]
  have "pd_categories (rest_post_data blog example_rest 1 (ascii ''t'') (ascii ''c'')
      (PyStr (ascii ''Nope'')) PyNone None PyNone) \<noteq> Some [1]"
    using g e nf by blast
  then show ?thesis using g t e n(1) l r c x by simp
qed

subsection \<open>Tags over REST\<close>








lemma rest_post_tags:
  "pd_tags (rest_post_data w rp pick title content category status (Some ts) excerpt) =
     (if rest_tag_ids w rp ts = [] then None else Some (rest_tag_ids w rp ts))"
  by (simp add: rest_post_data_def Let_def)



lemma blog_tags:
  "rest_create_tag blog example_rest (ascii ''new'') = Some 11"
  "rest_create_tag blog example_rest (ascii ''bad'') = None"
  "rest_create_tag blog example_rest (ascii ''old'') = Some 12"
  by (simp_all add: rest_create_tag_def blog_defs)

lemma blog_post_tags:
  "pd_tags (rest_post_data blog example_rest 1 (ascii ''t'') (ascii ''c'') PyNone PyNone
     (Some [ascii ''new'', ascii ''old'']) PyNone) = Some [11, 12]"
  by (simp add: rest_post_tags blog_tags)




end
